theory Spec2Isabelle
  imports Complex_Main
begin

section \<open>Constants of the simulation\<close>

text \<open>
  The module-level constants of \<^verbatim>\<open>rock_paper_scissors_sim.py\<close>. Python floats are
  idealised as real numbers; the integers that are unit types and counts are \<open>int\<close>.
\<close>

definition WIDTH :: real where "WIDTH = 960"

definition HEIGHT :: real where "HEIGHT = 960"

definition MAX_TIME :: nat where "MAX_TIME = 3000"

definition CENTER_FORCE :: real where "CENTER_FORCE = 9 / 10"

definition CENTER_X :: real where "CENTER_X = WIDTH / 2"

definition CENTER_Y :: real where "CENTER_Y = HEIGHT / 2"

definition GROUP_COHESION :: real where "GROUP_COHESION = 1 / 10"

definition GROUP_ALIGNMENT :: real where "GROUP_ALIGNMENT = 1 / 10"

definition GROUP_RADIUS :: real where "GROUP_RADIUS = 100"

definition GROUP_SEPARATION :: real where "GROUP_SEPARATION = 82 / 100"

definition GROUP_MIN_DISTANCE :: real where "GROUP_MIN_DISTANCE = 30"

definition UNIT_RADIUS :: real where "UNIT_RADIUS = 5"

definition UNIT_SPEED :: real where "UNIT_SPEED = 2"

definition MIN_DISTANCE :: real where "MIN_DISTANCE = UNIT_RADIUS * 2"

definition REPULSION_FACTOR :: real where "REPULSION_FACTOR = 4"

definition REPULSION_RADIUS :: real where "REPULSION_RADIUS = 150"

definition RANDOM_MOVEMENT :: real where "RANDOM_MOVEMENT = 1 / 2"

definition COLLISION_CHANCE :: real where "COLLISION_CHANCE = 3 / 10"

section \<open>Units\<close>

text \<open>
  \<^verbatim>\<open>class Unit\<close>. A unit object lives in the list \<^verbatim>\<open>units\<close> for the whole run and the
  list is never reordered, so an object reference (\<^verbatim>\<open>self.target\<close>, the elements of a
  query result, \<^verbatim>\<open>u != unit\<close>, \<^verbatim>\<open>other is self\<close>) is the object's index in that list.
\<close>

record Unit =
  unit_type :: int
  unit_x :: real
  unit_y :: real
  unit_target :: "nat option"
  unit_vx :: real
  unit_vy :: real

definition Unit_init :: "int \<Rightarrow> real \<Rightarrow> real \<Rightarrow> Unit" where
  "Unit_init ty px py =
     \<lparr>unit_type = ty, unit_x = px, unit_y = py, unit_target = None, unit_vx = 0, unit_vy = 0\<rparr>"

definition position :: "Unit \<Rightarrow> real \<times> real" where
  "position u = (unit_x u, unit_y u)"

definition euclid :: "real \<times> real \<Rightarrow> real \<times> real \<Rightarrow> real" where
  "euclid p q = sqrt ((fst p - fst q)\<^sup>2 + (snd p - snd q)\<^sup>2)"

text \<open>The two cyclic relations, written inline in the source as
  \<^verbatim>\<open>(self.unit_type + 2) % 3\<close> and \<^verbatim>\<open>(self.unit_type + 1) % 3\<close>.\<close>

definition prey_type :: "int \<Rightarrow> int" where
  "prey_type t = (t + 2) mod 3"

definition predator_type :: "int \<Rightarrow> int" where
  "predator_type t = (t + 1) mod 3"

section \<open>Library calls\<close>

datatype py_error = ValueError | IndexError | MemoryError

text \<open>
  Python's \<^verbatim>\<open>random\<close> module: the generator is a fixed sequence of draws from \<open>[0, 1)\<close>
  together with the number of draws made so far. \<^verbatim>\<open>random.random()\<close> is the next draw;
  \<^verbatim>\<open>random.randint(a, b)\<close> takes the next draw \<open>u\<close> to \<open>a + \<lfloor>u * (b - a + 1)\<rfloor>\<close>, so that each
  of \<open>a, \<dots>, b\<close> comes from an interval of \<open>u\<close> of the same length.
\<close>

record rng =
  rng_seq :: "nat \<Rightarrow> real"
  rng_pos :: nat

definition random_random :: "rng \<Rightarrow> real \<times> rng" where
  "random_random g = (rng_seq g (rng_pos g), g\<lparr>rng_pos := Suc (rng_pos g)\<rparr>)"

definition random_randint :: "int \<Rightarrow> int \<Rightarrow> rng \<Rightarrow> int \<times> rng" where
  "random_randint a b g =
     (a + \<lfloor>rng_seq g (rng_pos g) * of_int (b - a + 1)\<rfloor>, g\<lparr>rng_pos := Suc (rng_pos g)\<rparr>)"

text \<open>A generator is well formed when every draw lies in \<open>[0, 1)\<close>.\<close>

definition valid_rng :: "rng \<Rightarrow> bool" where
  "valid_rng g = (\<forall>n. 0 \<le> rng_seq g n \<and> rng_seq g n < 1)"

text \<open>
  \<^verbatim>\<open>scipy.spatial.cKDTree\<close>: the constructor copies the coordinates and rejects data that is
  not two-dimensional, which is what \<^verbatim>\<open>np.array\<close> of an empty list of rows is;
  \<^verbatim>\<open>query_ball_point(x, r)\<close> gives the indices of the stored points at distance at most
  \<open>r\<close> from \<open>x\<close> (the library leaves their order open; here they come by index);
  \<^verbatim>\<open>query(x, k)\<close> gives the \<open>k\<close> nearest stored points, nearest first, as distances and
  indices (among points at the same distance, here the lower index first).
\<close>

definition cKDTree :: "(real \<times> real) list \<Rightarrow> py_error + (real \<times> real) list" where
  "cKDTree positions = (if positions = [] then Inl ValueError else Inr positions)"

definition query_ball_point :: "(real \<times> real) list \<Rightarrow> real \<times> real \<Rightarrow> real \<Rightarrow> nat list" where
  "query_ball_point tree_data q r =
     filter (\<lambda>i. euclid (tree_data ! i) q \<le> r) [0..<length tree_data]"

definition query :: "(real \<times> real) list \<Rightarrow> real \<times> real \<Rightarrow> nat \<Rightarrow> (real \<times> nat) list" where
  "query tree_data q k =
     take k (sort_key fst (map (\<lambda>i. (euclid (tree_data ! i) q, i)) [0..<length tree_data]))"

section \<open>The spatial tree\<close>

text \<open>
  \<^verbatim>\<open>class SpatialTree\<close>. The tree keeps the positions the units had when it was built;
  \<^verbatim>\<open>self.units\<close> is the live list, passed to each query as \<open>units\<close>.
\<close>

record SpatialTree =
  tree :: "(real \<times> real) list"

definition SpatialTree_init :: "Unit list \<Rightarrow> py_error + SpatialTree" where
  "SpatialTree_init units =
     (case cKDTree (map position units) of
        Inl e \<Rightarrow> Inl e
      | Inr t \<Rightarrow> Inr \<lparr>tree = t\<rparr>)"

definition query_radius :: "SpatialTree \<Rightarrow> Unit list \<Rightarrow> nat \<Rightarrow> real \<Rightarrow> nat list" where
  "query_radius st units i radius =
     (let query_point = position (units ! i);
          indices = query_ball_point (tree st) query_point radius
      in filter (\<lambda>j. j \<noteq> i) indices)"

definition query_by_type :: "SpatialTree \<Rightarrow> Unit list \<Rightarrow> nat \<Rightarrow> real \<Rightarrow> int \<Rightarrow> nat list" where
  "query_by_type st units i radius ty =
     (let nearby = query_radius st units i radius
      in filter (\<lambda>j. unit_type (units ! j) = ty) nearby)"

definition type_units :: "Unit list \<Rightarrow> nat \<Rightarrow> int \<Rightarrow> nat list" where
  "type_units units i ty =
     filter (\<lambda>j. unit_type (units ! j) = ty \<and> j \<noteq> i) [0..<length units]"

definition find_nearest_of_type :: "Unit list \<Rightarrow> nat \<Rightarrow> int \<Rightarrow> nat \<Rightarrow> (nat \<times> real) list" where
  "find_nearest_of_type units i ty k =
     (if type_units units i ty = [] then []
      else
        let positions = map (\<lambda>j. position (units ! j)) (type_units units i ty);
            query_point = position (units ! i);
            k' = (if length positions < k then length positions else k)
        in if length positions > 0
           then map (\<lambda>(d, idx). (type_units units i ty ! idx, d)) (query positions query_point k')
           else [])"

section \<open>Targeting\<close>

text \<open>\<^verbatim>\<open>Unit.find_target\<close>. The tree argument of the source is used for its \<^verbatim>\<open>units\<close>
  only (\<^verbatim>\<open>find_nearest_of_type\<close> builds a tree of its own from the live positions).\<close>

definition find_target :: "Unit list \<Rightarrow> nat \<Rightarrow> rng \<Rightarrow> nat option \<times> rng" where
  "find_target units i g =
     (let target_type = prey_type (unit_type (units ! i));
          potential_targets = find_nearest_of_type units i target_type 3
      in if potential_targets = [] then (None, g)
         else
           let num_choices = length potential_targets
           in if num_choices > 0
              then
                let (u, g1) = random_random g
                in if u < 95 / 100 \<or> num_choices = 1
                   then (Some (fst (potential_targets ! 0)), g1)
                   else
                     let (j, g2) = random_randint 1 (int num_choices - 1) g1
                     in (Some (fst (potential_targets ! nat j)), g2)
              else (None, g))"

definition find_threats :: "SpatialTree \<Rightarrow> Unit list \<Rightarrow> nat \<Rightarrow> (nat \<times> real) list" where
  "find_threats st units i =
     (let predator = predator_type (unit_type (units ! i));
          nearby = query_by_type st units i REPULSION_RADIUS predator
      in map (\<lambda>j. (j, euclid (position (units ! i)) (position (units ! j)))) nearby)"

definition find_same_type_neighbors :: "SpatialTree \<Rightarrow> Unit list \<Rightarrow> nat \<Rightarrow> real \<Rightarrow> nat list" where
  "find_same_type_neighbors st units i radius =
     query_by_type st units i radius (unit_type (units ! i))"

section \<open>Movement\<close>

text \<open>
  \<^verbatim>\<open>Unit.move_towards_target\<close>, one definition per block of the method. The method writes
  \<^verbatim>\<open>self.vx\<close>, \<^verbatim>\<open>self.vy\<close> while it accumulates and \<^verbatim>\<open>self.x\<close>, \<^verbatim>\<open>self.y\<close> at its end; no
  other unit is read through \<^verbatim>\<open>self\<close> meanwhile, so the velocity is accumulated as a value
  and the unit is stored once. The drawing branches (\<^verbatim>\<open>SHOW_ATTRACTIONS\<close> is \<^verbatim>\<open>False\<close>) are
  left out; \<^verbatim>\<open>GROUP_BEHAVIOR\<close> and \<^verbatim>\<open>CENTER_ATTRACTION\<close> are \<^verbatim>\<open>True\<close>.
\<close>

definition vadd :: "real \<times> real \<Rightarrow> real \<times> real \<Rightarrow> real \<times> real" where
  "vadd v w = (fst v + fst w, snd v + snd w)"

definition attraction :: "Unit list \<Rightarrow> nat \<Rightarrow> real \<times> real" where
  "attraction units i =
     (case unit_target (units ! i) of
        None \<Rightarrow> (0, 0)
      | Some t \<Rightarrow>
          let dx = unit_x (units ! t) - unit_x (units ! i);
              dy = unit_y (units ! t) - unit_y (units ! i);
              distance = sqrt (dx\<^sup>2 + dy\<^sup>2)
          in if distance > 0
             then
               let attraction_strength = max (7 / 10) (1 - REPULSION_FACTOR / 2)
               in ((dx / distance) * UNIT_SPEED * attraction_strength,
                   (dy / distance) * UNIT_SPEED * attraction_strength)
             else (0, 0))"

fun repulsion :: "Unit list \<Rightarrow> nat \<Rightarrow> (nat \<times> real) list \<Rightarrow> real \<times> real \<Rightarrow> real \<times> real" where
  "repulsion units i [] v = v"
| "repulsion units i ((threat, distance) # rest) v =
     (if distance > 0
      then
        let dx = unit_x (units ! i) - unit_x (units ! threat);
            dy = unit_y (units ! i) - unit_y (units ! threat);
            repulsion_strength = REPULSION_FACTOR * (1 - distance / REPULSION_RADIUS)
        in repulsion units i rest
             (fst v + (dx / distance) * repulsion_strength,
              snd v + (dy / distance) * repulsion_strength)
      else repulsion units i rest v)"

fun separation :: "Unit list \<Rightarrow> nat \<Rightarrow> nat list \<Rightarrow> real \<times> real \<times> nat \<Rightarrow> real \<times> real \<times> nat" where
  "separation units i [] acc = acc"
| "separation units i (neighbor # rest) (sep_x, sep_y, sep_count) =
     (let dx = unit_x (units ! i) - unit_x (units ! neighbor);
          dy = unit_y (units ! i) - unit_y (units ! neighbor);
          distance = sqrt (dx\<^sup>2 + dy\<^sup>2)
      in if distance < GROUP_MIN_DISTANCE \<and> distance > 0
         then
           let separation_factor = 1 - distance / GROUP_MIN_DISTANCE
           in separation units i rest
                (sep_x + (dx / distance) * separation_factor,
                 sep_y + (dy / distance) * separation_factor,
                 Suc sep_count)
         else separation units i rest (sep_x, sep_y, sep_count))"

definition cohesion :: "Unit list \<Rightarrow> nat \<Rightarrow> nat list \<Rightarrow> real \<times> real" where
  "cohesion units i neighbors =
     (let center_x = sum_list (map (\<lambda>j. unit_x (units ! j)) neighbors) / real (length neighbors);
          center_y = sum_list (map (\<lambda>j. unit_y (units ! j)) neighbors) / real (length neighbors)
      in if center_x \<noteq> unit_x (units ! i) \<or> center_y \<noteq> unit_y (units ! i)
         then
           let dx = center_x - unit_x (units ! i);
               dy = center_y - unit_y (units ! i);
               distance = sqrt (dx\<^sup>2 + dy\<^sup>2)
           in if distance > GROUP_MIN_DISTANCE
              then ((dx / distance) * GROUP_COHESION, (dy / distance) * GROUP_COHESION)
              else (0, 0)
         else (0, 0))"

definition alignment :: "Unit list \<Rightarrow> nat list \<Rightarrow> real \<times> real" where
  "alignment units neighbors =
     (let avg_vx = sum_list (map (\<lambda>j. unit_vx (units ! j)) neighbors) / real (length neighbors);
          avg_vy = sum_list (map (\<lambda>j. unit_vy (units ! j)) neighbors) / real (length neighbors)
      in (avg_vx * GROUP_ALIGNMENT, avg_vy * GROUP_ALIGNMENT))"

definition separation_force :: "Unit list \<Rightarrow> nat \<Rightarrow> nat list \<Rightarrow> real \<times> real" where
  "separation_force units i neighbors =
     (let (sep_x, sep_y, sep_count) = separation units i neighbors (0, 0, 0)
      in if sep_count > 0
         then (sep_x * GROUP_SEPARATION, sep_y * GROUP_SEPARATION)
         else (0, 0))"

definition group_behavior :: "SpatialTree \<Rightarrow> Unit list \<Rightarrow> nat \<Rightarrow> real \<times> real" where
  "group_behavior st units i =
     (let neighbors = find_same_type_neighbors st units i GROUP_RADIUS
      in if neighbors \<noteq> []
         then vadd (vadd (separation_force units i neighbors) (cohesion units i neighbors))
                (alignment units neighbors)
         else (0, 0))"

definition center_attraction :: "Unit list \<Rightarrow> nat \<Rightarrow> real \<times> real" where
  "center_attraction units i =
     (let dx = CENTER_X - unit_x (units ! i);
          dy = CENTER_Y - unit_y (units ! i);
          distance = sqrt (dx\<^sup>2 + dy\<^sup>2)
      in if distance > WIDTH / 4
         then
           let center_strength = CENTER_FORCE * (distance / (WIDTH / 2))
           in if distance > 0
              then ((dx / distance) * center_strength, (dy / distance) * center_strength)
              else (0, 0)
         else (0, 0))"

text \<open>The pass over \<^verbatim>\<open>all_units\<close>, the global that \<^verbatim>\<open>main\<close> binds to the list \<^verbatim>\<open>units\<close>.\<close>

fun global_separation :: "Unit list \<Rightarrow> nat \<Rightarrow> nat list \<Rightarrow> real \<times> real \<Rightarrow> real \<times> real" where
  "global_separation units i [] sep = sep"
| "global_separation units i (other # rest) sep =
     (if other = i then global_separation units i rest sep
      else
        let dx = unit_x (units ! i) - unit_x (units ! other);
            dy = unit_y (units ! i) - unit_y (units ! other);
            dist = sqrt (dx\<^sup>2 + dy\<^sup>2)
        in if dist < MIN_DISTANCE / (105 / 100) \<and> dist > 0
           then
             let force = 20 * (MIN_DISTANCE - dist) / MIN_DISTANCE
             in global_separation units i rest
                  (fst sep + (dx / dist) * force, snd sep + (dy / dist) * force)
           else global_separation units i rest sep)"

definition limit_speed :: "real \<times> real \<Rightarrow> real \<times> real" where
  "limit_speed v =
     (let speed = sqrt ((fst v)\<^sup>2 + (snd v)\<^sup>2)
      in if speed > UNIT_SPEED
         then ((fst v / speed) * UNIT_SPEED, (snd v / speed) * UNIT_SPEED)
         else v)"

text \<open>The bounce off the two edges of one axis: the coordinate and that axis's velocity.\<close>

definition keep_within :: "real \<Rightarrow> real \<times> real \<Rightarrow> real \<times> real" where
  "keep_within dimension pv =
     (if fst pv < UNIT_RADIUS then (UNIT_RADIUS, snd pv * (- 1 / 2))
      else if fst pv > dimension - UNIT_RADIUS then (dimension - UNIT_RADIUS, snd pv * (- 1 / 2))
      else pv)"

definition velocity :: "SpatialTree \<Rightarrow> Unit list \<Rightarrow> nat \<Rightarrow> real \<Rightarrow> real \<Rightarrow> real \<times> real" where
  "velocity st units i r1 r2 =
     (let v1 = repulsion units i (find_threats st units i) (attraction units i);
          v2 = vadd v1 (group_behavior st units i);
          v3 = vadd v2 (center_attraction units i);
          v4 = (fst v3 + (r1 - 1 / 2) * RANDOM_MOVEMENT, snd v3 + (r2 - 1 / 2) * RANDOM_MOVEMENT);
          v5 = vadd v4 (global_separation units i [0..<length units] (0, 0))
      in limit_speed v5)"

definition move_towards_target :: "SpatialTree \<Rightarrow> Unit list \<Rightarrow> nat \<Rightarrow> rng \<Rightarrow> Unit list \<times> rng" where
  "move_towards_target st units i g =
     (let (r1, g1) = random_random g;
          (r2, g2) = random_random g1;
          v = velocity st units i r1 r2;
          (x', vx') = keep_within WIDTH (unit_x (units ! i) + fst v, fst v);
          (y', vy') = keep_within HEIGHT (unit_y (units ! i) + snd v, snd v)
      in (units[i := (units ! i)\<lparr>unit_x := x', unit_y := y', unit_vx := vx', unit_vy := vy'\<rparr>], g2))"

section \<open>Collisions\<close>

text \<open>\<^verbatim>\<open>Unit.check_collision\<close>: the loop over the nearby predators, then the method.\<close>

fun collision_loop :: "Unit list \<Rightarrow> nat \<Rightarrow> int \<Rightarrow> nat list \<Rightarrow> rng \<Rightarrow> int option \<times> rng" where
  "collision_loop units i predator [] g = (None, g)"
| "collision_loop units i predator (j # rest) g =
     (if euclid (position (units ! i)) (position (units ! j)) < MIN_DISTANCE
      then
        let (u, g') = random_random g
        in if u < COLLISION_CHANCE then (Some predator, g')
           else collision_loop units i predator rest g'
      else collision_loop units i predator rest g)"

definition check_collision :: "SpatialTree \<Rightarrow> Unit list \<Rightarrow> nat \<Rightarrow> rng \<Rightarrow> int option \<times> rng" where
  "check_collision st units i g =
     (let predator = predator_type (unit_type (units ! i));
          nearby_predators = query_by_type st units i (MIN_DISTANCE * 2) predator
      in collision_loop units i predator nearby_predators g)"

section \<open>Initialisation and the main loop\<close>

text \<open>
  The limits of the machine that runs numpy, in rows of two coordinates: the largest array
  numpy accepts, and the largest array the memory holds.
\<close>

record machine =
  max_array_rows :: nat
  memory_rows :: nat

text \<open>
  \<^verbatim>\<open>np.random.uniform(low, high, size=(total_count, 2))\<close>: numpy's generator has its own
  state, the sequence \<open>draws\<close> of values from \<open>[0, 1)\<close>, filled in row by row. A negative
  \<^verbatim>\<open>total_count\<close> is a \<^verbatim>\<open>ValueError\<close>, and so is one past numpy's limit on the size of an
  array; an array within that limit that the memory cannot hold is a \<^verbatim>\<open>MemoryError\<close>.
  \<^verbatim>\<open>positions[i]\<close> counts a negative \<open>i\<close> from the end and raises \<^verbatim>\<open>IndexError\<close> out of
  range.
\<close>

definition np_random_uniform :: "machine \<Rightarrow> (nat \<Rightarrow> real) \<Rightarrow> int \<Rightarrow> py_error + (real \<times> real) list" where
  "np_random_uniform m draws total_count =
     (if total_count < 0 then Inl ValueError
      else if max_array_rows m < nat total_count then Inl ValueError
      else if memory_rows m < nat total_count then Inl MemoryError
      else Inr (map (\<lambda>n. (UNIT_RADIUS + (WIDTH - UNIT_RADIUS - UNIT_RADIUS) * draws (2 * n),
                          UNIT_RADIUS + (HEIGHT - UNIT_RADIUS - UNIT_RADIUS) * draws (2 * n + 1)))
                [0..<nat total_count]))"

definition row :: "(real \<times> real) list \<Rightarrow> int \<Rightarrow> py_error + real \<times> real" where
  "row positions i =
     (if 0 \<le> i \<and> i < int (length positions) then Inr (positions ! nat i)
      else if - int (length positions) \<le> i \<and> i < 0 then Inr (positions ! nat (int (length positions) + i))
      else Inl IndexError)"

fun add_units :: "int \<Rightarrow> (real \<times> real) list \<Rightarrow> int list \<Rightarrow> Unit list \<Rightarrow> py_error + Unit list" where
  "add_units ty positions [] units = Inr units"
| "add_units ty positions (i # rest) units =
     (case row positions i of
        Inl e \<Rightarrow> Inl e
      | Inr p \<Rightarrow> add_units ty positions rest (units @ [Unit_init ty (fst p) (snd p)]))"

definition initialize_units ::
  "machine \<Rightarrow> int \<Rightarrow> int \<Rightarrow> int \<Rightarrow> (nat \<Rightarrow> real) \<Rightarrow> py_error + Unit list" where
  "initialize_units m scissors_count rock_count paper_count draws =
     (let total_count = scissors_count + rock_count + paper_count
      in case np_random_uniform m draws total_count of
           Inl e \<Rightarrow> Inl e
         | Inr positions \<Rightarrow>
             (case add_units 0 positions [0..scissors_count - 1] [] of
                Inl e \<Rightarrow> Inl e
              | Inr units1 \<Rightarrow>
                  (case add_units 1 positions
                          [scissors_count..scissors_count + rock_count - 1] units1 of
                     Inl e \<Rightarrow> Inl e
                   | Inr units2 \<Rightarrow>
                       add_units 2 positions
                         [scissors_count + rock_count..total_count - 1] units2)))"

definition check_end_condition :: "Unit list \<Rightarrow> bool" where
  "check_end_condition units =
     (if units = [] then True
      else list_all (\<lambda>u. unit_type u = unit_type (units ! 0)) units)"

text \<open>
  The state of \<^verbatim>\<open>main\<close>'s loop. \<open>Time_Limit w c\<close> is the message
  \<^verbatim>\<open>Time Limit! <name w> leads with c units\<close>, \<open>Game_Over (Some t)\<close> is
  \<^verbatim>\<open>Game Over! <name t> wins!\<close> and \<open>Game_Over None\<close> is \<^verbatim>\<open>Game Over! No units left!\<close>.
  Window events and drawing are left out.
\<close>

datatype status = Running | Time_Limit nat nat | Game_Over "int option"

record simulation =
  sim_units :: "Unit list"
  time_steps :: nat
  status_message :: status
  running :: bool
  random_state :: rng

fun target_loop :: "nat list \<Rightarrow> Unit list \<Rightarrow> rng \<Rightarrow> Unit list \<times> rng" where
  "target_loop [] units g = (units, g)"
| "target_loop (i # rest) units g =
     (let (t, g') = find_target units i g
      in target_loop rest (units[i := (units ! i)\<lparr>unit_target := t\<rparr>]) g')"

fun move_loop :: "SpatialTree \<Rightarrow> nat list \<Rightarrow> Unit list \<Rightarrow> rng \<Rightarrow> Unit list \<times> rng" where
  "move_loop st [] units g = (units, g)"
| "move_loop st (i # rest) units g =
     (let (units', g') = move_towards_target st units i g
      in move_loop st rest units' g')"

text \<open>The dictionary \<^verbatim>\<open>new_types\<close>, in insertion order; every key is inserted once.\<close>

fun collisions_loop ::
  "SpatialTree \<Rightarrow> Unit list \<Rightarrow> nat list \<Rightarrow> (nat \<times> int) list \<Rightarrow> rng \<Rightarrow> (nat \<times> int) list \<times> rng" where
  "collisions_loop st units [] new_types g = (new_types, g)"
| "collisions_loop st units (i # rest) new_types g =
     (let (new_type, g') = check_collision st units i g
      in collisions_loop st units rest
           (case new_type of None \<Rightarrow> new_types | Some t \<Rightarrow> new_types @ [(i, t)]) g')"

fun apply_new_types :: "(nat \<times> int) list \<Rightarrow> Unit list \<Rightarrow> Unit list" where
  "apply_new_types [] units = units"
| "apply_new_types ((i, new_type) # rest) units =
     apply_new_types rest (units[i := (units ! i)\<lparr>unit_type := new_type\<rparr>])"

definition count_type :: "Unit list \<Rightarrow> int \<Rightarrow> nat" where
  "count_type units t = length (filter (\<lambda>u. unit_type u = t) units)"

definition index_of_max :: "nat list \<Rightarrow> nat" where
  "index_of_max counts = length (takeWhile (\<lambda>c. c \<noteq> fold max counts 0) counts)"

text \<open>The three passes over \<^verbatim>\<open>units\<close> in the loop body of \<^verbatim>\<open>main\<close>.\<close>

definition update_targets :: "Unit list \<Rightarrow> rng \<Rightarrow> Unit list \<times> rng" where
  "update_targets units g = target_loop [0..<length units] units g"

definition update_positions :: "SpatialTree \<Rightarrow> Unit list \<Rightarrow> rng \<Rightarrow> Unit list \<times> rng" where
  "update_positions st units g = move_loop st [0..<length units] units g"

definition convert_units :: "SpatialTree \<Rightarrow> Unit list \<Rightarrow> rng \<Rightarrow> Unit list \<times> rng" where
  "convert_units st units g =
     (let (new_types, g') = collisions_loop st units [0..<length units] [] g
      in (apply_new_types new_types units, g'))"

definition main_tick :: "simulation \<Rightarrow> py_error + simulation" where
  "main_tick s =
     (case SpatialTree_init (sim_units s) of
        Inl e \<Rightarrow> Inl e
      | Inr spatial_tree \<Rightarrow>
          let (units1, g1) = update_targets (sim_units s) (random_state s);
              (units2, g2) = update_positions spatial_tree units1 g1;
              (units3, g3) = convert_units spatial_tree units2 g2;
              steps = time_steps s + 1;
              counts = [count_type units3 0, count_type units3 1, count_type units3 2];
              (status1, running1) =
                (if steps \<ge> MAX_TIME
                 then (Time_Limit (index_of_max counts) (counts ! index_of_max counts), False)
                 else (status_message s, running s));
              (status2, running2) =
                (if check_end_condition units3
                 then (if units3 \<noteq> [] then Game_Over (Some (unit_type (units3 ! 0)))
                       else Game_Over None, False)
                 else (status1, running1))
          in Inr \<lparr>sim_units = units3, time_steps = steps, status_message = status2,
                  running = running2, random_state = g3\<rparr>)"

text \<open>\<^verbatim>\<open>main\<close> up to the loop, for the machine, the counts of the command line and numpy's
  draws.\<close>

definition main_init ::
  "machine \<Rightarrow> int \<Rightarrow> int \<Rightarrow> int \<Rightarrow> (nat \<Rightarrow> real) \<Rightarrow> rng \<Rightarrow> py_error + simulation" where
  "main_init m scissors_count rock_count paper_count draws g =
     (case initialize_units m scissors_count rock_count paper_count draws of
        Inl e \<Rightarrow> Inl e
      | Inr units \<Rightarrow>
          Inr \<lparr>sim_units = units, time_steps = 0, status_message = Running, running = True,
                random_state = g\<rparr>)"

text \<open>
  The loop \<^verbatim>\<open>while running\<close>. It ends: a tick that leaves \<open>running\<close> true has counted
  \<open>time_steps\<close> up and kept it below \<^verbatim>\<open>MAX_TIME\<close>.
\<close>

function main_loop :: "simulation \<Rightarrow> py_error + simulation" where
  "main_loop s =
     (if running s
      then (case main_tick s of Inl e \<Rightarrow> Inl e | Inr s' \<Rightarrow> main_loop s')
      else Inr s)"
  by pat_completeness auto
termination
  by (relation "measure (\<lambda>s. if running s then Suc (MAX_TIME - time_steps s) else 0)")
     (auto simp: main_tick_def Let_def split: sum.splits prod.splits if_splits)

declare main_loop.simps [simp del]

definition main ::
  "machine \<Rightarrow> int \<Rightarrow> int \<Rightarrow> int \<Rightarrow> (nat \<Rightarrow> real) \<Rightarrow> rng \<Rightarrow> py_error + simulation" where
  "main m scissors_count rock_count paper_count draws g =
     (case main_init m scissors_count rock_count paper_count draws g of
        Inl e \<Rightarrow> Inl e
      | Inr s \<Rightarrow> main_loop s)"

section \<open>Notions used in the statements\<close>

text \<open>The candidate list that \<^verbatim>\<open>find_target\<close> binds to \<^verbatim>\<open>potential_targets\<close>.\<close>

definition potential_targets :: "Unit list \<Rightarrow> nat \<Rightarrow> (nat \<times> real) list" where
  "potential_targets units i = find_nearest_of_type units i (prey_type (unit_type (units ! i))) 3"

text \<open>The nearby predators that pass the exact distance test of \<^verbatim>\<open>check_collision\<close>,
  in the order the loop meets them.\<close>

definition qualifying_predators :: "SpatialTree \<Rightarrow> Unit list \<Rightarrow> nat \<Rightarrow> nat list" where
  "qualifying_predators st units i =
     filter (\<lambda>j. euclid (position (units ! i)) (position (units ! j)) < MIN_DISTANCE)
       (query_by_type st units i (MIN_DISTANCE * 2) (predator_type (unit_type (units ! i))))"

text \<open>A unit lies inside the play area, a margin of \<^verbatim>\<open>UNIT_RADIUS\<close> from every edge.\<close>

definition in_bounds :: "Unit \<Rightarrow> bool" where
  "in_bounds u =
     (UNIT_RADIUS \<le> unit_x u \<and> unit_x u \<le> WIDTH - UNIT_RADIUS
      \<and> UNIT_RADIUS \<le> unit_y u \<and> unit_y u \<le> HEIGHT - UNIT_RADIUS)"

text \<open>The \<open>k\<close>-th draw from now on is below the conversion chance.\<close>

definition hit :: "rng \<Rightarrow> nat \<Rightarrow> bool" where
  "hit g k = (rng_seq g (rng_pos g + k) < COLLISION_CHANCE)"

text \<open>The unit that \<^verbatim>\<open>move_towards_target\<close> stores for \<open>i\<close>.\<close>

definition moved :: "SpatialTree \<Rightarrow> Unit list \<Rightarrow> nat \<Rightarrow> rng \<Rightarrow> Unit" where
  "moved st units i g =
     (let v = velocity st units i (rng_seq g (rng_pos g)) (rng_seq g (Suc (rng_pos g)))
      in (units ! i)
           \<lparr>unit_x := fst (keep_within WIDTH (unit_x (units ! i) + fst v, fst v)),
            unit_y := fst (keep_within HEIGHT (unit_y (units ! i) + snd v, snd v)),
            unit_vx := snd (keep_within WIDTH (unit_x (units ! i) + fst v, fst v)),
            unit_vy := snd (keep_within HEIGHT (unit_y (units ! i) + snd v, snd v))\<rparr>)"

text \<open>
  The generator as agent \<open>i\<close> finds it in the collision pass over the list \<open>units\<close>, and
  what \<^verbatim>\<open>check_collision\<close> then returns for the agent.
\<close>

fun collision_rng :: "SpatialTree \<Rightarrow> Unit list \<Rightarrow> rng \<Rightarrow> nat \<Rightarrow> rng" where
  "collision_rng st units g 0 = g"
| "collision_rng st units g (Suc i) = snd (check_collision st units i (collision_rng st units g i))"

definition collision_outcome :: "SpatialTree \<Rightarrow> Unit list \<Rightarrow> rng \<Rightarrow> nat \<Rightarrow> int option" where
  "collision_outcome st units g i = fst (check_collision st units i (collision_rng st units g i))"

text \<open>The dictionary \<^verbatim>\<open>new_types\<close> that these outcomes make up.\<close>

definition outcomes :: "SpatialTree \<Rightarrow> Unit list \<Rightarrow> rng \<Rightarrow> nat list \<Rightarrow> (nat \<times> int) list" where
  "outcomes st units g js =
     concat (map (\<lambda>j. case collision_outcome st units g j of None \<Rightarrow> [] | Some t \<Rightarrow> [(j, t)]) js)"

text \<open>The list \<^verbatim>\<open>units\<close> and the generator as agent \<open>i\<close> finds them in the position pass.\<close>

definition store_before :: "SpatialTree \<Rightarrow> Unit list \<Rightarrow> rng \<Rightarrow> nat \<Rightarrow> Unit list \<times> rng" where
  "store_before st units g i = move_loop st [0..<i] units g"

text \<open>
  The array that \<^verbatim>\<open>np.random.uniform\<close> returns for \<open>n\<close> rows, an index of it within
  \<open>[-n, n)\<close>, the row such an index reads (a negative index counts from the end), and the
  indices that the three loops of \<^verbatim>\<open>initialize_units\<close> read, in their order.
\<close>

definition uniform_positions :: "(nat \<Rightarrow> real) \<Rightarrow> nat \<Rightarrow> (real \<times> real) list" where
  "uniform_positions draws n =
     map (\<lambda>k. (UNIT_RADIUS + (WIDTH - UNIT_RADIUS - UNIT_RADIUS) * draws (2 * k),
                UNIT_RADIUS + (HEIGHT - UNIT_RADIUS - UNIT_RADIUS) * draws (2 * k + 1)))
       [0..<n]"

definition in_range :: "nat \<Rightarrow> int \<Rightarrow> bool" where
  "in_range n i = (- int n \<le> i \<and> i < int n)"

definition wrapped :: "(real \<times> real) list \<Rightarrow> int \<Rightarrow> real \<times> real" where
  "wrapped positions i = positions ! nat (i mod int (length positions))"

definition unit_at :: "(real \<times> real) list \<Rightarrow> int \<Rightarrow> int \<Rightarrow> Unit" where
  "unit_at positions ty i = Unit_init ty (fst (wrapped positions i)) (snd (wrapped positions i))"

definition loop_indices :: "int \<Rightarrow> int \<Rightarrow> int \<Rightarrow> int list" where
  "loop_indices a b c = [0..a - 1] @ [a..a + b - 1] @ [a + b..a + b + c - 1]"

text \<open>
  A machine for the concrete runs: numpy's limit for rows of 16 bytes on 64 bits, and
  memory for \<open>2\<^sup>3\<^sup>0\<close> rows.
\<close>

definition sample_machine :: machine where
  "sample_machine = \<lparr>max_array_rows = 576460752303423487, memory_rows = 1073741824\<rparr>"

section \<open>Distances and queries\<close>

lemma euclid_le_iff: "0 \<le> r \<Longrightarrow> euclid p q \<le> r \<longleftrightarrow> (fst p - fst q)\<^sup>2 + (snd p - snd q)\<^sup>2 \<le> r\<^sup>2"
  unfolding euclid_def
  by (metis real_sqrt_le_iff real_sqrt_abs abs_of_nonneg)

lemma euclid_less_iff: "0 \<le> r \<Longrightarrow> euclid p q < r \<longleftrightarrow> (fst p - fst q)\<^sup>2 + (snd p - snd q)\<^sup>2 < r\<^sup>2"
  unfolding euclid_def
  by (metis real_sqrt_less_iff real_sqrt_abs abs_of_nonneg)

lemma set_query_radius:
  "set (query_radius st units i r) =
     {j. j < length (tree st) \<and> j \<noteq> i \<and> euclid (tree st ! j) (position (units ! i)) \<le> r}"
  by (auto simp: query_radius_def query_ball_point_def Let_def)

lemma set_query_by_type:
  "set (query_by_type st units i r ty) =
     {j. j < length (tree st) \<and> j \<noteq> i \<and> euclid (tree st ! j) (position (units ! i)) \<le> r
         \<and> unit_type (units ! j) = ty}"
  by (auto simp: query_by_type_def set_query_radius Let_def)

lemma distinct_query_radius: "distinct (query_radius st units i r)"
  by (simp add: query_radius_def query_ball_point_def Let_def)

lemma distinct_query_by_type: "distinct (query_by_type st units i r ty)"
  by (simp add: query_by_type_def distinct_query_radius Let_def)

lemma query_elem:
  "(d, idx) \<in> set (query tree_data q k) \<Longrightarrow> idx < length tree_data \<and> d = euclid (tree_data ! idx) q"
  by (auto simp: query_def dest!: in_set_takeD)

lemma length_query: "length (query tree_data q k) = min k (length tree_data)"
  by (simp add: query_def min.commute)

lemma sorted_query: "sorted (map fst (query tree_data q k))"
  unfolding query_def take_map[symmetric]
  by (rule sorted_wrt_take) (rule sorted_sort_key)

lemma find_nearest_of_type_alt:
  "find_nearest_of_type units i ty k =
     map (\<lambda>(d, idx). (type_units units i ty ! idx, d))
       (query (map (\<lambda>j. position (units ! j)) (type_units units i ty)) (position (units ! i))
          (min k (length (type_units units i ty))))"
  by (auto simp: find_nearest_of_type_def type_units_def Let_def query_def min_def)

lemma length_find_nearest_of_type:
  "length (find_nearest_of_type units i ty k) = min k (length (type_units units i ty))"
  by (simp add: find_nearest_of_type_alt length_query)

lemma find_nearest_of_type_elem:
  assumes "(j, d) \<in> set (find_nearest_of_type units i ty k)"
  shows "j < length units \<and> j \<noteq> i \<and> unit_type (units ! j) = ty
         \<and> d = euclid (position (units ! j)) (position (units ! i))"
proof -
  let ?c = "type_units units i ty"
  from assms obtain idx where
    q: "(d, idx) \<in> set (query (map (\<lambda>j. position (units ! j)) ?c) (position (units ! i)) (min k (length ?c)))"
    and j: "j = ?c ! idx"
    by (auto simp: find_nearest_of_type_alt)
  from query_elem[OF q] have idx: "idx < length ?c"
    and d: "d = euclid (map (\<lambda>j. position (units ! j)) ?c ! idx) (position (units ! i))"
    by simp_all
  from idx j have "j \<in> set ?c" by simp
  then have "j < length units \<and> j \<noteq> i \<and> unit_type (units ! j) = ty"
    by (auto simp: type_units_def)
  moreover from d idx j have "d = euclid (position (units ! j)) (position (units ! i))"
    by simp
  ultimately show ?thesis by simp
qed

lemma sorted_find_nearest_of_type:
  "sorted (map snd (find_nearest_of_type units i ty k))"
proof -
  have "map snd (find_nearest_of_type units i ty k) =
        map fst (query (map (\<lambda>j. position (units ! j)) (type_units units i ty)) (position (units ! i))
          (min k (length (type_units units i ty))))"
    by (simp add: find_nearest_of_type_alt case_prod_unfold comp_def)
  then show ?thesis by (simp add: sorted_query)
qed

lemma randint_range:
  assumes "valid_rng g" "a \<le> b"
  shows "a \<le> fst (random_randint a b g) \<and> fst (random_randint a b g) \<le> b"
proof -
  let ?u = "rng_seq g (rng_pos g)"
  let ?m = "of_int (b - a + 1) :: real"
  from assms(1) have u: "0 \<le> ?u" "?u < 1" by (simp_all add: valid_rng_def)
  from assms(2) have m: "1 \<le> ?m" by simp
  have "0 \<le> ?u * ?m" using u m by simp
  then have lo: "0 \<le> \<lfloor>?u * ?m\<rfloor>" by simp
  have "?u * ?m < ?m" using u m by simp
  then have "\<lfloor>?u * ?m\<rfloor> < b - a + 1" by (simp only: floor_less_iff)
  with lo show ?thesis by (simp add: random_randint_def)
qed

section \<open>Targets\<close>

lemma valid_rng_pos [simp]: "valid_rng (g\<lparr>rng_pos := n\<rparr>) = valid_rng g"
  by (simp add: valid_rng_def)

lemma find_nearest_nth:
  assumes "n < length (find_nearest_of_type units i ty k)"
  shows "fst (find_nearest_of_type units i ty k ! n) < length units
       \<and> fst (find_nearest_of_type units i ty k ! n) \<noteq> i
       \<and> unit_type (units ! fst (find_nearest_of_type units i ty k ! n)) = ty"
proof -
  from assms have "find_nearest_of_type units i ty k ! n \<in> set (find_nearest_of_type units i ty k)"
    by simp
  then have "(fst (find_nearest_of_type units i ty k ! n), snd (find_nearest_of_type units i ty k ! n))
      \<in> set (find_nearest_of_type units i ty k)"
    by simp
  from find_nearest_of_type_elem[OF this] show ?thesis by simp
qed

lemma find_target_cases:
  "find_target units i g =
     (if potential_targets units i = [] then (None, g)
      else if rng_seq g (rng_pos g) < 95 / 100 \<or> length (potential_targets units i) = 1
      then (Some (fst (potential_targets units i ! 0)), g\<lparr>rng_pos := Suc (rng_pos g)\<rparr>)
      else (Some (fst (potential_targets units i !
                    nat (1 + \<lfloor>rng_seq g (Suc (rng_pos g)) * of_int (int (length (potential_targets units i)) - 1)\<rfloor>))),
            g\<lparr>rng_pos := Suc (Suc (rng_pos g))\<rparr>))"
  by (simp add: find_target_def potential_targets_def Let_def random_random_def random_randint_def)

lemma rank_range:
  assumes "valid_rng g" "2 \<le> n"
  shows "1 \<le> nat (1 + \<lfloor>rng_seq g p * of_int (int n - 1)\<rfloor>)
       \<and> nat (1 + \<lfloor>rng_seq g p * of_int (int n - 1)\<rfloor>) < n"
proof -
  let ?g = "g\<lparr>rng_pos := p\<rparr>"
  let ?j = "1 + \<lfloor>rng_seq g p * of_int (int n - 1)\<rfloor>"
  have "valid_rng ?g" using assms(1) by simp
  moreover have "(1::int) \<le> int n - 1" using assms(2) by simp
  ultimately have "1 \<le> fst (random_randint 1 (int n - 1) ?g)
      \<and> fst (random_randint 1 (int n - 1) ?g) \<le> int n - 1"
    by (rule randint_range)
  moreover have "fst (random_randint 1 (int n - 1) ?g) = ?j"
    by (simp add: random_randint_def)
  ultimately have "1 \<le> ?j \<and> ?j \<le> int n - 1" by simp
  then show ?thesis by linarith
qed

lemma find_target_type:
  assumes "valid_rng g" "fst (find_target units i g) = Some j"
  shows "j < length units \<and> j \<noteq> i \<and> unit_type (units ! j) = prey_type (unit_type (units ! i))"
proof -
  let ?c = "potential_targets units i"
  from assms(2) have ne: "?c \<noteq> []" by (auto simp: find_target_cases split: if_splits)
  show ?thesis
  proof (cases "rng_seq g (rng_pos g) < 95 / 100 \<or> length ?c = 1")
    case True
    with ne assms(2) have "j = fst (?c ! 0)" by (simp add: find_target_cases)
    moreover from ne have "0 < length ?c" by simp
    ultimately show ?thesis
      using find_nearest_nth[of 0 units i "prey_type (unit_type (units ! i))" 3]
      by (simp add: potential_targets_def)
  next
    case False
    let ?r = "nat (1 + \<lfloor>rng_seq g (Suc (rng_pos g)) * of_int (int (length ?c) - 1)\<rfloor>)"
    from False ne have "2 \<le> length ?c" by (cases ?c) (auto simp: Suc_le_eq)
    from rank_range[OF assms(1) this] have "?r < length ?c" by simp
    moreover from False ne assms(2) have "j = fst (?c ! ?r)" by (simp add: find_target_cases)
    ultimately show ?thesis
      using find_nearest_nth[of ?r units i "prey_type (unit_type (units ! i))" 3]
      by (simp add: potential_targets_def)
  qed
qed

lemma potential_targets_targets:
  assumes "i < length units"
  shows "potential_targets (map (\<lambda>u. u\<lparr>unit_target := f u\<rparr>) units) i = potential_targets units i"
proof -
  have ty: "type_units (map (\<lambda>u. u\<lparr>unit_target := f u\<rparr>) units) i ty = type_units units i ty" for ty
    unfolding type_units_def by (rule filter_cong) auto
  have pos: "map (\<lambda>j. position (map (\<lambda>u. u\<lparr>unit_target := f u\<rparr>) units ! j)) (type_units units i ty)
      = map (\<lambda>j. position (units ! j)) (type_units units i ty)" for ty
    by (rule map_cong) (auto simp: type_units_def position_def)
  from assms have self: "position (map (\<lambda>u. u\<lparr>unit_target := f u\<rparr>) units ! i) = position (units ! i)"
    "unit_type (map (\<lambda>u. u\<lparr>unit_target := f u\<rparr>) units ! i) = unit_type (units ! i)"
    by (simp_all add: position_def)
  show ?thesis
    by (simp add: potential_targets_def find_nearest_of_type_def ty pos self)
qed

section \<open>Collision attempts\<close>

lemma collision_loop_draws:
  "collision_loop units i predator js g = (r, g') \<Longrightarrow>
   rng_seq g' = rng_seq g \<and>
   (\<exists>d. d \<le> length (filter (\<lambda>j. euclid (position (units ! i)) (position (units ! j)) < MIN_DISTANCE) js)
      \<and> rng_pos g' = rng_pos g + d
      \<and> (\<forall>k. Suc k < d \<longrightarrow> \<not> hit g k)
      \<and> (case r of
            Some t \<Rightarrow> t = predator \<and> 0 < d \<and> hit g (d - 1)
          | None \<Rightarrow> d = length (filter (\<lambda>j. euclid (position (units ! i)) (position (units ! j)) < MIN_DISTANCE) js)
                    \<and> (\<forall>k<d. \<not> hit g k)))"
proof (induction js arbitrary: g r g')
  case Nil
  then show ?case by auto
next
  case (Cons j js)
  let ?q = "\<lambda>j. euclid (position (units ! i)) (position (units ! j)) < MIN_DISTANCE"
  show ?case
  proof (cases "?q j")
    case False
    with Cons.prems have "collision_loop units i predator js g = (r, g')" by simp
    note ih = Cons.IH[OF this]
    have eq: "filter ?q (j # js) = filter ?q js" using False by simp
    show ?thesis unfolding eq by (rule ih)
  next
    case q: True
    let ?g1 = "g\<lparr>rng_pos := Suc (rng_pos g)\<rparr>"
    show ?thesis
    proof (cases "hit g 0")
      case True
      with q Cons.prems have "r = Some predator" "g' = ?g1"
        by (auto simp: random_random_def hit_def)
      with q True show ?thesis
        by (auto intro!: exI[of _ "Suc 0"])
    next
      case False
      with q Cons.prems have rec: "collision_loop units i predator js ?g1 = (r, g')"
        by (auto simp: random_random_def hit_def)
      have shift: "hit ?g1 k = hit g (Suc k)" for k by (simp add: hit_def)
      from Cons.IH[OF rec] obtain d where
        d1: "d \<le> length (filter ?q js)" and d2': "rng_pos g' = rng_pos ?g1 + d"
        and d3': "\<forall>k. Suc k < d \<longrightarrow> \<not> hit ?g1 k"
        and d4': "case r of Some t \<Rightarrow> t = predator \<and> 0 < d \<and> hit ?g1 (d - 1)
            | None \<Rightarrow> d = length (filter ?q js) \<and> (\<forall>k<d. \<not> hit ?g1 k)"
        and seq': "rng_seq g' = rng_seq ?g1"
        by blast
      from seq' have seq: "rng_seq g' = rng_seq g" by simp
      from d2' have d2: "rng_pos g' = Suc (rng_pos g) + d" by simp
      from d3' have d3: "\<forall>k. Suc k < d \<longrightarrow> \<not> hit g (Suc k)" by (simp add: shift)
      from d4' have d4: "case r of Some t \<Rightarrow> t = predator \<and> 0 < d \<and> hit g (Suc (d - 1))
            | None \<Rightarrow> d = length (filter ?q js) \<and> (\<forall>k<d. \<not> hit g (Suc k))"
        by (auto simp: shift split: option.splits)
      have a: "\<forall>k. Suc k < Suc d \<longrightarrow> \<not> hit g k"
      proof (intro allI impI)
        fix k assume "Suc k < Suc d"
        then show "\<not> hit g k" using False d3 by (cases k) auto
      qed
      have b: "case r of Some t \<Rightarrow> t = predator \<and> 0 < Suc d \<and> hit g (Suc d - 1)
            | None \<Rightarrow> Suc d = length (filter ?q (j # js)) \<and> (\<forall>k<Suc d. \<not> hit g k)"
      proof (cases r)
        case None
        with d4 have "d = length (filter ?q js)" "\<forall>k<d. \<not> hit g (Suc k)" by simp_all
        moreover have "\<forall>k<Suc d. \<not> hit g k"
        proof (intro allI impI)
          fix k assume "k < Suc d"
          then show "\<not> hit g k" using False \<open>\<forall>k<d. \<not> hit g (Suc k)\<close> by (cases k) auto
        qed
        moreover have "length (filter ?q (j # js)) = Suc (length (filter ?q js))" using q by simp
        ultimately show ?thesis using None by simp
      next
        case (Some t)
        with d4 show ?thesis by auto
      qed
      have "length (filter ?q (j # js)) = Suc (length (filter ?q js))" using q by simp
      with d1 have "Suc d \<le> length (filter ?q (j # js))" by simp
      moreover from d2 have "rng_pos g' = rng_pos g + Suc d" by simp
      ultimately show ?thesis using seq a b by blast
    qed
  qed
qed

lemma check_collision_some:
  assumes "check_collision st units i g = (Some t, g')"
  shows "t = predator_type (unit_type (units ! i)) \<and> qualifying_predators st units i \<noteq> []"
proof -
  let ?p = "predator_type (unit_type (units ! i))"
  from assms have "collision_loop units i ?p (query_by_type st units i (MIN_DISTANCE * 2) ?p) g
      = (Some t, g')"
    by (simp add: check_collision_def Let_def)
  from collision_loop_draws[OF this] obtain d where
    "d \<le> length (qualifying_predators st units i)" "t = ?p \<and> 0 < d \<and> hit g (d - 1)"
    unfolding qualifying_predators_def by auto
  then show ?thesis by auto
qed

lemma check_collision_seq:
  assumes "check_collision st units i g = (r, g')"
  shows "rng_seq g' = rng_seq g"
proof -
  let ?p = "predator_type (unit_type (units ! i))"
  from assms have "collision_loop units i ?p (query_by_type st units i (MIN_DISTANCE * 2) ?p) g
      = (r, g')"
    by (simp add: check_collision_def Let_def)
  from collision_loop_draws[OF this] show ?thesis by simp
qed

lemma predator_type_neq: "predator_type t \<noteq> t"
proof
  assume "predator_type t = t"
  then have "(t + 1) mod 3 = t" by (simp add: predator_type_def)
  then show False by presburger
qed

lemma no_predator_no_collision:
  assumes "\<forall>j<length (tree st). unit_type (units ! j) \<noteq> predator_type (unit_type (units ! i))"
  shows "check_collision st units i g = (None, g)"
proof -
  have "set (query_by_type st units i (MIN_DISTANCE * 2) (predator_type (unit_type (units ! i)))) = {}"
    using assms by (auto simp: set_query_by_type)
  then have "query_by_type st units i (MIN_DISTANCE * 2) (predator_type (unit_type (units ! i))) = []"
    by simp
  then show ?thesis by (simp add: check_collision_def Let_def)
qed

section \<open>Candidates, threats and qualifying predators\<close>

lemma set_type_units:
  "set (type_units units i ty) = {j. j < length units \<and> j \<noteq> i \<and> unit_type (units ! j) = ty}"
  by (auto simp: type_units_def)

lemma distinct_type_units: "distinct (type_units units i ty)"
  by (simp add: type_units_def)

lemma length_type_units:
  "length (type_units units i ty) = card {j. j < length units \<and> j \<noteq> i \<and> unit_type (units ! j) = ty}"
proof -
  have "card (set (type_units units i ty)) = length (type_units units i ty)"
    by (rule distinct_card[OF distinct_type_units])
  then show ?thesis by (simp only: set_type_units)
qed

lemma distinct_query: "distinct (map snd (query tree_data q k))"
proof -
  let ?ys = "map (\<lambda>i. (euclid (tree_data ! i) q, i)) [0..<length tree_data]"
  have "map snd ?ys = [0..<length tree_data]" by (simp add: comp_def)
  then have "distinct (map snd ?ys)" by simp
  then have "distinct ?ys" "inj_on snd (set ?ys)" by (simp_all only: distinct_map)
  then have "distinct (map snd (sort_key fst ?ys))" by (simp add: distinct_map)
  then have "distinct (take k (map snd (sort_key fst ?ys)))" by (rule distinct_take)
  then show ?thesis by (simp add: query_def take_map)
qed

lemma distinct_find_nearest_of_type:
  "distinct (map fst (find_nearest_of_type units i ty k))"
proof -
  let ?c = "type_units units i ty"
  let ?q = "query (map (\<lambda>j. position (units ! j)) ?c) (position (units ! i)) (min k (length ?c))"
  have "map fst (map (\<lambda>(d, idx). (?c ! idx, d)) xs) = map (\<lambda>idx. ?c ! idx) (map snd xs)"
    for xs :: "(real \<times> nat) list"
    by (induction xs) auto
  then have eq: "map fst (find_nearest_of_type units i ty k) = map (\<lambda>idx. ?c ! idx) (map snd ?q)"
    by (simp only: find_nearest_of_type_alt)
  have r: "\<forall>idx\<in>set (map snd ?q). idx < length ?c"
    using query_elem[of _ _ "map (\<lambda>j. position (units ! j)) ?c" "position (units ! i)" "min k (length ?c)"]
    by auto
  have "inj_on (\<lambda>idx. ?c ! idx) (set (map snd ?q))"
  proof (rule inj_onI)
    fix x y assume "x \<in> set (map snd ?q)" "y \<in> set (map snd ?q)" "?c ! x = ?c ! y"
    with r have "x < length ?c" "y < length ?c" "?c ! x = ?c ! y" by blast+
    with distinct_type_units[of units i ty] show "x = y"
      by (simp add: nth_eq_iff_index_eq)
  qed
  with distinct_query[of "map (\<lambda>j. position (units ! j)) ?c" "position (units ! i)" "min k (length ?c)"]
  have "distinct (map (\<lambda>idx. ?c ! idx) (map snd ?q))"
    by (simp only: distinct_map)
  with eq show ?thesis by simp
qed

lemma potential_targets_candidates:
  "distinct (map fst (potential_targets units i))
   \<and> set (map fst (potential_targets units i))
       \<subseteq> {j. j < length units \<and> j \<noteq> i \<and> unit_type (units ! j) = prey_type (unit_type (units ! i))}
   \<and> length (potential_targets units i)
       = min 3 (card {j. j < length units \<and> j \<noteq> i
                        \<and> unit_type (units ! j) = prey_type (unit_type (units ! i))})"
proof -
  have a: "distinct (map fst (potential_targets units i))"
    by (simp add: potential_targets_def distinct_find_nearest_of_type)
  have b: "set (map fst (potential_targets units i))
       \<subseteq> {j. j < length units \<and> j \<noteq> i \<and> unit_type (units ! j) = prey_type (unit_type (units ! i))}"
  proof
    fix j assume "j \<in> set (map fst (potential_targets units i))"
    then obtain d where
      "(j, d) \<in> set (find_nearest_of_type units i (prey_type (unit_type (units ! i))) 3)"
      unfolding potential_targets_def by auto
    from find_nearest_of_type_elem[OF this]
    show "j \<in> {j. j < length units \<and> j \<noteq> i
                \<and> unit_type (units ! j) = prey_type (unit_type (units ! i))}"
      by simp
  qed
  have c: "length (potential_targets units i)
       = min 3 (card {j. j < length units \<and> j \<noteq> i
                        \<and> unit_type (units ! j) = prey_type (unit_type (units ! i))})"
    by (simp add: potential_targets_def length_find_nearest_of_type length_type_units)
  from a b c show ?thesis by (intro conjI)
qed

lemma find_target_none_iff:
  "(fst (find_target units i g) = None)
   = ({j. j < length units \<and> j \<noteq> i \<and> unit_type (units ! j) = prey_type (unit_type (units ! i))} = {})"
proof -
  let ?P = "{j. j < length units \<and> j \<noteq> i \<and> unit_type (units ! j) = prey_type (unit_type (units ! i))}"
  have fin: "finite ?P" by simp
  have "(fst (find_target units i g) = None) = (potential_targets units i = [])"
    by (simp add: find_target_cases)
  also have "\<dots> = (length (potential_targets units i) = 0)" by simp
  also have "\<dots> = (min 3 (card ?P) = 0)"
    using potential_targets_candidates[of units i] by (simp only:)
  also have "\<dots> = (card ?P = 0)" by arith
  also have "\<dots> = (?P = {})" using fin by (simp only: card_0_eq)
  finally show ?thesis .
qed

lemma find_target_candidate:
  assumes "valid_rng g" "fst (find_target units i g) = Some j"
  shows "j \<in> set (map fst (potential_targets units i))"
proof -
  let ?c = "potential_targets units i"
  from assms(2) have ne: "?c \<noteq> []" by (auto simp: find_target_cases split: if_splits)
  show ?thesis
  proof (cases "rng_seq g (rng_pos g) < 95 / 100 \<or> length ?c = 1")
    case True
    with ne assms(2) have "j = fst (?c ! 0)" by (simp add: find_target_cases)
    moreover from ne have "0 < length ?c" by simp
    ultimately have "j = map fst ?c ! 0" "0 < length (map fst ?c)" by simp_all
    then show ?thesis by (simp only: nth_mem)
  next
    case False
    let ?r = "nat (1 + \<lfloor>rng_seq g (Suc (rng_pos g)) * of_int (int (length ?c) - 1)\<rfloor>)"
    from False ne have "2 \<le> length ?c" by (cases ?c) (auto simp: Suc_le_eq)
    from rank_range[OF assms(1) this] have "?r < length ?c" by simp
    moreover from False ne assms(2) have "j = fst (?c ! ?r)" by (simp add: find_target_cases)
    ultimately have "j = map fst ?c ! ?r" "?r < length (map fst ?c)" by simp_all
    then show ?thesis by (simp only: nth_mem)
  qed
qed


lemma query_by_type_eq:
  "query_by_type st units i r ty =
     filter (\<lambda>j. j \<noteq> i \<and> euclid (tree st ! j) (position (units ! i)) \<le> r
                 \<and> unit_type (units ! j) = ty) [0..<length (tree st)]"
  unfolding query_by_type_def query_radius_def query_ball_point_def Let_def filter_filter
  by (rule filter_cong[OF refl]) auto

lemma find_threats_eq:
  "find_threats st units i =
     map (\<lambda>j. (j, euclid (position (units ! i)) (position (units ! j))))
       (filter (\<lambda>j. j \<noteq> i \<and> euclid (tree st ! j) (position (units ! i)) \<le> REPULSION_RADIUS
                    \<and> unit_type (units ! j) = predator_type (unit_type (units ! i)))
          [0..<length (tree st)])"
  by (simp add: find_threats_def Let_def query_by_type_eq)

lemma qualifying_predators_eq:
  "qualifying_predators st units i =
     filter (\<lambda>j. j \<noteq> i \<and> euclid (tree st ! j) (position (units ! i)) \<le> MIN_DISTANCE * 2
                 \<and> unit_type (units ! j) = predator_type (unit_type (units ! i))
                 \<and> euclid (position (units ! i)) (position (units ! j)) < MIN_DISTANCE)
       [0..<length (tree st)]"
  unfolding qualifying_predators_def query_by_type_eq filter_filter
  by (rule filter_cong[OF refl]) auto

lemma check_collision_result:
  "fst (check_collision st units i g) =
     (if \<exists>k<length (qualifying_predators st units i). hit g k
      then Some (predator_type (unit_type (units ! i))) else None)"
proof -
  let ?p = "predator_type (unit_type (units ! i))"
  obtain r g' where rg: "collision_loop units i ?p (query_by_type st units i (MIN_DISTANCE * 2) ?p) g = (r, g')"
    by (cases "collision_loop units i ?p (query_by_type st units i (MIN_DISTANCE * 2) ?p) g")
  then have f: "fst (check_collision st units i g) = r" by (simp add: check_collision_def Let_def)
  from collision_loop_draws[OF rg] obtain d where
    d: "d \<le> length (qualifying_predators st units i)"
    and c: "case r of Some t \<Rightarrow> t = ?p \<and> 0 < d \<and> hit g (d - 1)
          | None \<Rightarrow> d = length (qualifying_predators st units i) \<and> (\<forall>k<d. \<not> hit g k)"
    unfolding qualifying_predators_def by auto
  show ?thesis
  proof (cases r)
    case None
    with c have "\<forall>k<length (qualifying_predators st units i). \<not> hit g k" by simp
    with f None show ?thesis by auto
  next
    case (Some t)
    with c have t: "t = ?p" "0 < d" "hit g (d - 1)" by simp_all
    with d have "d - 1 < length (qualifying_predators st units i)" by simp
    with t have "\<exists>k<length (qualifying_predators st units i). hit g k" by blast
    with f Some t show ?thesis by simp
  qed
qed

section \<open>The position pass\<close>

lemma keep_within_bounds:
  "2 * UNIT_RADIUS \<le> d \<Longrightarrow>
     UNIT_RADIUS \<le> fst (keep_within d pv) \<and> fst (keep_within d pv) \<le> d - UNIT_RADIUS"
  by (auto simp: keep_within_def)

lemma move_towards_target_eq:
  "move_towards_target st units i g =
     (units[i := moved st units i g], g\<lparr>rng_pos := Suc (Suc (rng_pos g))\<rparr>)"
  by (simp add: move_towards_target_def moved_def random_random_def Let_def case_prod_unfold)

lemma moved_in_bounds: "in_bounds (moved st units i g)"
  using keep_within_bounds[of WIDTH] keep_within_bounds[of HEIGHT]
  by (simp add: in_bounds_def moved_def Let_def WIDTH_def HEIGHT_def UNIT_RADIUS_def)

lemma moved_type [simp]:
  "unit_type (moved st units i g) = unit_type (units ! i)"
  "unit_target (moved st units i g) = unit_target (units ! i)"
  by (simp_all add: moved_def Let_def)

lemma target_loop_result:
  "target_loop js units g = (units', g') \<Longrightarrow>
     length units' = length units
     \<and> (\<forall>j<length units. unit_type (units' ! j) = unit_type (units ! j)
           \<and> position (units' ! j) = position (units ! j)
           \<and> unit_vx (units' ! j) = unit_vx (units ! j)
           \<and> unit_vy (units' ! j) = unit_vy (units ! j))
     \<and> rng_seq g' = rng_seq g"
proof (induction js arbitrary: units g)
  case Nil
  then show ?case by simp
next
  case (Cons i js)
  obtain t g1 where ft: "find_target units i g = (t, g1)" by (cases "find_target units i g")
  let ?u1 = "units[i := (units ! i)\<lparr>unit_target := t\<rparr>]"
  from Cons.prems ft have "target_loop js ?u1 g1 = (units', g')" by simp
  from Cons.IH[OF this] have ih: "length units' = length units"
    "\<forall>j<length units. unit_type (units' ! j) = unit_type (?u1 ! j)
           \<and> position (units' ! j) = position (?u1 ! j)
           \<and> unit_vx (units' ! j) = unit_vx (?u1 ! j)
           \<and> unit_vy (units' ! j) = unit_vy (?u1 ! j)"
    "rng_seq g' = rng_seq g1"
    by simp_all
  have same: "unit_type (?u1 ! j) = unit_type (units ! j) \<and> position (?u1 ! j) = position (units ! j)
      \<and> unit_vx (?u1 ! j) = unit_vx (units ! j) \<and> unit_vy (?u1 ! j) = unit_vy (units ! j)"
    if "j < length units" for j
    using that by (cases "j = i") (simp_all add: position_def)
  from ft have "rng_seq g1 = rng_seq g"
    by (auto simp: find_target_cases split: if_splits)
  with ih same show ?case by simp
qed

lemma move_loop_result:
  "move_loop st js units g = (units', g') \<Longrightarrow>
     length units' = length units
     \<and> (\<forall>j<length units. unit_type (units' ! j) = unit_type (units ! j)
           \<and> (j \<in> set js \<longrightarrow> in_bounds (units' ! j))
           \<and> (j \<notin> set js \<longrightarrow> units' ! j = units ! j))
     \<and> rng_seq g' = rng_seq g \<and> rng_pos g' = rng_pos g + 2 * length js"
proof (induction js arbitrary: units g)
  case Nil
  then show ?case by simp
next
  case (Cons i js)
  let ?u1 = "units[i := moved st units i g]"
  let ?g1 = "g\<lparr>rng_pos := Suc (Suc (rng_pos g))\<rparr>"
  from Cons.prems have "move_loop st js ?u1 ?g1 = (units', g')"
    by (simp add: move_towards_target_eq)
  from Cons.IH[OF this] have len: "length units' = length units"
    and ih: "\<And>j. j < length units \<Longrightarrow> unit_type (units' ! j) = unit_type (?u1 ! j)
           \<and> (j \<in> set js \<longrightarrow> in_bounds (units' ! j))
           \<and> (j \<notin> set js \<longrightarrow> units' ! j = ?u1 ! j)"
    and rng: "rng_seq g' = rng_seq g" "rng_pos g' = rng_pos g + 2 * length (i # js)"
    by simp_all
  have "unit_type (units' ! j) = unit_type (units ! j)
           \<and> (j \<in> set (i # js) \<longrightarrow> in_bounds (units' ! j))
           \<and> (j \<notin> set (i # js) \<longrightarrow> units' ! j = units ! j)"
    if j: "j < length units" for j
  proof (cases "j = i")
    case True
    with j ih[OF j] show ?thesis by (cases "j \<in> set js") (simp_all add: moved_in_bounds)
  next
    case False
    with j ih[OF j] show ?thesis by simp
  qed
  with len rng show ?case by blast
qed

lemma move_loop_append:
  "move_loop st (js @ [i]) units g =
     (let (units1, g1) = move_loop st js units g in move_towards_target st units1 i g1)"
  by (induction js arbitrary: units g) (simp_all add: Let_def split: prod.splits)

lemma move_loop_length: "length (fst (move_loop st js units g)) = length units"
  using move_loop_result[of st js units g] by (cases "move_loop st js units g") simp

lemma store_before_nth:
  assumes "n \<le> length units" and "j < length units"
  shows "fst (store_before st units g n) ! j =
           (if j < n
            then moved st (fst (store_before st units g j)) j (snd (store_before st units g j))
            else units ! j)"
  using assms(1)
proof (induction n)
  case 0
  then show ?case by (simp add: store_before_def)
next
  case (Suc n)
  obtain U G where ug: "store_before st units g n = (U, G)"
    by (cases "store_before st units g n")
  then have ml: "move_loop st [0..<n] units g = (U, G)" by (simp add: store_before_def)
  from move_loop_length[of st "[0..<n]" units g] ml have len: "length U = length units" by simp
  from ml have step: "fst (store_before st units g (Suc n)) = U[n := moved st U n G]"
    by (simp add: store_before_def move_loop_append move_towards_target_eq)
  from Suc have ih: "U ! j =
           (if j < n
            then moved st (fst (store_before st units g j)) j (snd (store_before st units g j))
            else units ! j)"
    by (simp add: ug)
  show ?case
  proof (cases "j = n")
    case True
    with Suc.prems len ug show ?thesis by (simp add: step)
  next
    case False
    with ih show ?thesis by (simp add: step)
  qed
qed

lemma update_targets_result:
  assumes "update_targets units g = (units', g')"
  shows "length units' = length units"
    and "j < length units \<Longrightarrow> unit_type (units' ! j) = unit_type (units ! j)"
    and "j < length units \<Longrightarrow> position (units' ! j) = position (units ! j)"
    and "j < length units \<Longrightarrow> unit_vx (units' ! j) = unit_vx (units ! j)"
    and "j < length units \<Longrightarrow> unit_vy (units' ! j) = unit_vy (units ! j)"
  using target_loop_result[of "[0..<length units]" units g units' g'] assms
  by (simp_all add: update_targets_def)

lemma update_positions_result:
  assumes "update_positions st units g = (units', g')"
  shows "length units' = length units"
    and "j < length units \<Longrightarrow> unit_type (units' ! j) = unit_type (units ! j)"
    and "j < length units \<Longrightarrow> in_bounds (units' ! j)"
  using move_loop_result[of st "[0..<length units]" units g units' g'] assms
  by (simp_all add: update_positions_def)

section \<open>The conversion pass\<close>

lemma apply_new_types_length [simp]: "length (apply_new_types nts units) = length units"
  by (induction nts units rule: apply_new_types.induct) simp_all

lemma apply_new_types_nth:
  "distinct (map fst nts) \<Longrightarrow> i < length units \<Longrightarrow>
     apply_new_types nts units ! i =
       (case map_of nts i of None \<Rightarrow> units ! i | Some t \<Rightarrow> (units ! i)\<lparr>unit_type := t\<rparr>)"
proof (induction nts units rule: apply_new_types.induct)
  case (1 units)
  then show ?case by simp
next
  case (2 j new_type rest units)
  let ?u1 = "units[j := (units ! j)\<lparr>unit_type := new_type\<rparr>]"
  from 2 have ih: "apply_new_types rest ?u1 ! i =
       (case map_of rest i of None \<Rightarrow> ?u1 ! i | Some t \<Rightarrow> (?u1 ! i)\<lparr>unit_type := t\<rparr>)"
    by simp
  show ?case
  proof (cases "i = j")
    case True
    with 2(2) have "map_of rest i = None" by (simp add: map_of_eq_None_iff)
    with ih True 2(3) show ?thesis by simp
  next
    case False
    with ih show ?thesis by (simp split: option.splits)
  qed
qed

lemma collisions_loop_append:
  "collisions_loop st units (js @ [i]) nts g =
     (let (nts1, g1) = collisions_loop st units js nts g;
          (r, g2) = check_collision st units i g1
      in (case r of None \<Rightarrow> nts1 | Some t \<Rightarrow> nts1 @ [(i, t)], g2))"
  by (induction js arbitrary: nts g) (simp_all add: Let_def split: prod.splits)

lemma collisions_loop_upt:
  "collisions_loop st units [0..<n] [] g = (outcomes st units g [0..<n], collision_rng st units g n)"
proof (induction n)
  case 0
  then show ?case by (simp add: outcomes_def)
next
  case (Suc n)
  obtain r g2 where cc: "check_collision st units n (collision_rng st units g n) = (r, g2)"
    by (cases "check_collision st units n (collision_rng st units g n)")
  then have "collision_outcome st units g n = r" "collision_rng st units g (Suc n) = g2"
    by (simp_all add: collision_outcome_def)
  with Suc cc show ?case
    by (simp add: collisions_loop_append outcomes_def split: option.splits)
qed

lemma outcomes_keys: "map fst (outcomes st units g js) = filter (\<lambda>j. collision_outcome st units g j \<noteq> None) js"
  by (induction js) (auto simp: outcomes_def split: option.splits)

lemma map_of_outcomes:
  "map_of (outcomes st units g js) i = (if i \<in> set js then collision_outcome st units g i else None)"
  by (induction js) (auto simp: outcomes_def split: option.splits)

lemma convert_units_length:
  assumes "convert_units st units g = (units', g')"
  shows "length units' = length units" and "g' = collision_rng st units g (length units)"
  using assms by (auto simp: convert_units_def collisions_loop_upt)

lemma convert_units_nth:
  assumes "convert_units st units g = (units', g')" and "i < length units"
  shows "units' ! i =
           (case collision_outcome st units g i of
              None \<Rightarrow> units ! i
            | Some t \<Rightarrow> (units ! i)\<lparr>unit_type := t\<rparr>)"
proof -
  from assms(1) have u: "units' = apply_new_types (outcomes st units g [0..<length units]) units"
    by (simp add: convert_units_def collisions_loop_upt)
  have "distinct (map fst (outcomes st units g [0..<length units]))"
    by (simp add: outcomes_keys)
  from apply_new_types_nth[OF this assms(2)] assms(2)
  show ?thesis by (simp add: u map_of_outcomes)
qed

lemma convert_units_position:
  assumes "convert_units st units g = (units', g')" and "i < length units"
  shows "position (units' ! i) = position (units ! i)"
    and "unit_vx (units' ! i) = unit_vx (units ! i)"
    and "unit_vy (units' ! i) = unit_vy (units ! i)"
    and "in_bounds (units' ! i) = in_bounds (units ! i)"
  using convert_units_nth[OF assms]
  by (simp_all add: position_def in_bounds_def split: option.splits)

lemma single_type_conversion:
  assumes "length (tree st) = length units" and "\<forall>j<length units. unit_type (units ! j) = t"
  shows "convert_units st units g = (units, g)"
proof -
  have cc: "check_collision st units i g = (None, g)" if "i < length units" for i g
    using assms that predator_type_neq[of t] by (intro no_predator_no_collision) simp
  have rng: "i \<le> length units \<Longrightarrow> collision_rng st units g i = g" for i
    by (induction i) (simp_all add: cc)
  obtain units' g' where c: "convert_units st units g = (units', g')"
    by (cases "convert_units st units g")
  have "units' ! i = units ! i" if "i < length units" for i
    using convert_units_nth[OF c that] that by (simp add: collision_outcome_def rng cc)
  with convert_units_length(1)[OF c] have "units' = units" by (simp add: nth_equalityI)
  moreover from convert_units_length(2)[OF c] have "g' = g" by (simp add: rng)
  ultimately show ?thesis using c by simp
qed

section \<open>A tick and the run\<close>

lemma main_tick_phases:
  assumes "main_tick s = Inr s'"
  shows "\<exists>st units1 g1 units2 g2.
           SpatialTree_init (sim_units s) = Inr st
         \<and> update_targets (sim_units s) (random_state s) = (units1, g1)
         \<and> update_positions st units1 g1 = (units2, g2)
         \<and> convert_units st units2 g2 = (sim_units s', random_state s')
         \<and> time_steps s' = time_steps s + 1"
  using assms
  by (auto simp: main_tick_def Let_def split: sum.splits prod.splits)

lemma main_tick_in_bounds:
  assumes "main_tick s = Inr s'" and "i < length (sim_units s')"
  shows "in_bounds (sim_units s' ! i)"
proof -
  from main_tick_phases[OF assms(1)] obtain st units1 g1 units2 g2 where
    t: "update_targets (sim_units s) (random_state s) = (units1, g1)"
    and p: "update_positions st units1 g1 = (units2, g2)"
    and c: "convert_units st units2 g2 = (sim_units s', random_state s')"
    by blast
  from convert_units_length(1)[OF c] assms(2) have i2: "i < length units2" by simp
  with update_positions_result(1)[OF p] have "i < length units1" by simp
  from update_positions_result(3)[OF p this] have "in_bounds (units2 ! i)" .
  with convert_units_position(4)[OF c i2] show ?thesis by simp
qed

lemma main_tick_snapshot:
  assumes "main_tick s = Inr s'"
  shows "\<exists>st units2 g2.
      SpatialTree_init (sim_units s) = Inr st
    \<and> update_positions st (fst (update_targets (sim_units s) (random_state s)))
          (snd (update_targets (sim_units s) (random_state s))) = (units2, g2)
    \<and> convert_units st units2 g2 = (sim_units s', random_state s')
    \<and> length units2 = length (sim_units s) \<and> length (sim_units s') = length (sim_units s)
    \<and> (\<forall>j<length (sim_units s). unit_type (units2 ! j) = unit_type (sim_units s ! j))
    \<and> (\<forall>j<length (sim_units s). position (sim_units s' ! j) = position (units2 ! j))
    \<and> tree st = map position (sim_units s)"
proof -
  from main_tick_phases[OF assms] obtain st units1 g1 units2 g2 where
    st: "SpatialTree_init (sim_units s) = Inr st"
    and t: "update_targets (sim_units s) (random_state s) = (units1, g1)"
    and p: "update_positions st units1 g1 = (units2, g2)"
    and c: "convert_units st units2 g2 = (sim_units s', random_state s')"
    by blast
  note l1 = update_targets_result(1)[OF t]
  note l2 = update_positions_result(1)[OF p]
  note l3 = convert_units_length(1)[OF c]
  have ty: "\<forall>j<length (sim_units s). unit_type (units2 ! j) = unit_type (sim_units s ! j)"
    using update_targets_result(2)[OF t] update_positions_result(2)[OF p] l1 by simp
  have ps: "\<forall>j<length (sim_units s). position (sim_units s' ! j) = position (units2 ! j)"
    using convert_units_position(1)[OF c] l1 l2 by simp
  from st have tr: "tree st = map position (sim_units s)"
    by (auto simp: SpatialTree_init_def cKDTree_def split: if_splits)
  from t p have "update_positions st (fst (update_targets (sim_units s) (random_state s)))
          (snd (update_targets (sim_units s) (random_state s))) = (units2, g2)"
    by simp
  with st c l1 l2 l3 ty ps tr show ?thesis by auto
qed

lemma single_type_tick:
  assumes "sim_units s \<noteq> []" and "\<forall>u \<in> set (sim_units s). unit_type u = t"
  shows "\<exists>s'. main_tick s = Inr s'
           \<and> status_message s' = Game_Over (Some t) \<and> running s' = False
           \<and> time_steps s' = time_steps s + 1
           \<and> map unit_type (sim_units s') = map unit_type (sim_units s)
           \<and> count_type (sim_units s') t = length (sim_units s)"
proof -
  let ?n = "length (sim_units s)"
  let ?st = "\<lparr>tree = map position (sim_units s)\<rparr>"
  from assms(1) have st: "SpatialTree_init (sim_units s) = Inr ?st"
    by (simp add: SpatialTree_init_def cKDTree_def)
  obtain units1 g1 where t: "update_targets (sim_units s) (random_state s) = (units1, g1)"
    by (cases "update_targets (sim_units s) (random_state s)")
  obtain units2 g2 where p: "update_positions ?st units1 g1 = (units2, g2)"
    by (cases "update_positions ?st units1 g1")
  note l1 = update_targets_result(1)[OF t]
  note l2 = update_positions_result(1)[OF p]
  have ty: "unit_type (units2 ! j) = t" if "j < ?n" for j
    using update_targets_result(2)[OF t that] update_positions_result(2)[OF p, of j] l1 that assms(2)
    by simp
  have c: "convert_units ?st units2 g2 = (units2, g2)"
    by (rule single_type_conversion[where t = t]) (simp_all add: l1 l2 ty)
  from assms(1) l1 l2 have ne: "units2 \<noteq> []" by auto
  have all: "list_all (\<lambda>u. unit_type u = t) units2"
    unfolding list_all_length using ty l1 l2 by simp
  from assms(1) have "0 < ?n" by simp
  from ty[OF this] have t0: "unit_type (units2 ! 0) = t" .
  from all t0 ne have e: "check_end_condition units2"
    by (simp add: check_end_condition_def)
  let ?s' = "\<lparr>sim_units = units2, time_steps = time_steps s + 1,
      status_message = Game_Over (Some t), running = False, random_state = g2\<rparr>"
  have "main_tick s = Inr ?s'"
    by (simp add: main_tick_def st t p c e ne t0 Let_def)
  moreover have "map unit_type units2 = map unit_type (sim_units s)"
    using ty l1 l2 assms(2) by (intro nth_equalityI) simp_all
  moreover have "count_type units2 t = ?n"
    using all l1 l2 by (simp add: count_type_def list_all_iff)
  ultimately show ?thesis by simp
qed

lemma main_loop_stopped: "\<not> running s \<Longrightarrow> main_loop s = Inr s"
  by (subst main_loop.simps) simp

lemma main_loop_step:
  "running s \<Longrightarrow> main_tick s = Inr s' \<Longrightarrow> main_loop s = main_loop s'"
  by (subst main_loop.simps) simp

lemma main_loop_error:
  "running s \<Longrightarrow> main_tick s = Inl e \<Longrightarrow> main_loop s = Inl e"
  by (subst main_loop.simps) simp

text \<open>A population of one type, of at least one agent: the run is one tick long.\<close>

lemma single_type_run:
  assumes "running s" and "sim_units s \<noteq> []" and "\<forall>u \<in> set (sim_units s). unit_type u = t"
  shows "\<exists>s'. main_loop s = Inr s' \<and> main_tick s = Inr s'
           \<and> status_message s' = Game_Over (Some t) \<and> running s' = False
           \<and> time_steps s' = time_steps s + 1
           \<and> map unit_type (sim_units s') = map unit_type (sim_units s)
           \<and> count_type (sim_units s') t = length (sim_units s)"
proof -
  from single_type_tick[OF assms(2,3)] obtain s' where
    t: "main_tick s = Inr s'" and r: "running s' = False"
    and rest: "status_message s' = Game_Over (Some t)" "time_steps s' = time_steps s + 1"
      "map unit_type (sim_units s') = map unit_type (sim_units s)"
      "count_type (sim_units s') t = length (sim_units s)"
    by blast
  from main_loop_step[OF assms(1) t] main_loop_stopped[of s'] r
  have "main_loop s = Inr s'" by simp
  with t r rest show ?thesis by blast
qed

section \<open>Initialisation\<close>

lemma np_random_uniform_eq:
  "np_random_uniform m draws total_count =
     (if total_count < 0 then Inl ValueError
      else if max_array_rows m < nat total_count then Inl ValueError
      else if memory_rows m < nat total_count then Inl MemoryError
      else Inr (uniform_positions draws (nat total_count)))"
  by (simp add: np_random_uniform_def uniform_positions_def)

lemma uniform_positions_bounds:
  assumes "\<forall>n. 0 \<le> draws n \<and> draws n < 1" and "p \<in> set (uniform_positions draws n)"
  shows "UNIT_RADIUS \<le> fst p \<and> fst p \<le> WIDTH - UNIT_RADIUS
       \<and> UNIT_RADIUS \<le> snd p \<and> snd p \<le> HEIGHT - UNIT_RADIUS"
proof -
  define f where "f = (\<lambda>k. (UNIT_RADIUS + (WIDTH - UNIT_RADIUS - UNIT_RADIUS) * draws (2 * k),
             UNIT_RADIUS + (HEIGHT - UNIT_RADIUS - UNIT_RADIUS) * draws (2 * k + 1)))"
  have "uniform_positions draws n = map f [0..<n]"
    unfolding uniform_positions_def f_def ..
  with assms(2) obtain k where p: "p = f k" by auto
  from assms(1) have "0 \<le> draws (2 * k)" "draws (2 * k) \<le> 1"
    "0 \<le> draws (2 * k + 1)" "draws (2 * k + 1) \<le> 1"
    by (simp_all add: less_imp_le)
  then have "0 \<le> 950 * draws (2 * k)" "950 * draws (2 * k) \<le> 950"
    "0 \<le> 950 * draws (2 * k + 1)" "950 * draws (2 * k + 1) \<le> 950"
    by simp_all
  then show ?thesis
    unfolding p f_def by (simp add: UNIT_RADIUS_def WIDTH_def HEIGHT_def)
qed

lemma row_eq:
  "row positions i =
     (if in_range (length positions) i then Inr (wrapped positions i) else Inl IndexError)"
proof (cases "0 \<le> i")
  case True
  then show ?thesis by (auto simp: row_def in_range_def wrapped_def)
next
  case False
  then have "i < 0" by simp
  show ?thesis
  proof (cases "- int (length positions) \<le> i")
    case True
    with \<open>i < 0\<close> have "i mod int (length positions) = int (length positions) + i"
      by (smt (verit) mod_add_self1 mod_pos_pos_trivial)
    with True \<open>i < 0\<close> show ?thesis by (simp add: row_def in_range_def wrapped_def)
  next
    case False
    with \<open>i < 0\<close> show ?thesis by (simp add: row_def in_range_def)
  qed
qed

lemma wrapped_in_positions: "in_range (length positions) i \<Longrightarrow> wrapped positions i \<in> set positions"
proof -
  assume r: "in_range (length positions) i"
  then have "0 < int (length positions)" by (auto simp: in_range_def)
  then have "0 \<le> i mod int (length positions)" "i mod int (length positions) < int (length positions)"
    by simp_all
  then have "nat (i mod int (length positions)) < length positions" by linarith
  then show ?thesis by (simp add: wrapped_def)
qed

lemma add_units_eq:
  "add_units ty positions js units =
     (if list_all (in_range (length positions)) js
      then Inr (units @ map (unit_at positions ty) js)
      else Inl IndexError)"
  by (induction js arbitrary: units) (simp_all add: row_eq unit_at_def)

lemma initialize_units_eq:
  "initialize_units m a b c draws =
     (if a + b + c < 0 then Inl ValueError
      else if max_array_rows m < nat (a + b + c) then Inl ValueError
      else if memory_rows m < nat (a + b + c) then Inl MemoryError
      else if list_all (in_range (nat (a + b + c))) (loop_indices a b c)
      then Inr (map (unit_at (uniform_positions draws (nat (a + b + c))) 0) [0..a - 1]
                @ map (unit_at (uniform_positions draws (nat (a + b + c))) 1) [a..a + b - 1]
                @ map (unit_at (uniform_positions draws (nat (a + b + c))) 2) [a + b..a + b + c - 1])
      else Inl IndexError)"
proof -
  have len: "length (uniform_positions draws n) = n" for n
    by (simp add: uniform_positions_def)
  show ?thesis
    unfolding initialize_units_def Let_def np_random_uniform_eq add_units_eq loop_indices_def
    by (simp add: len)
qed



lemma initialize_units_in_bounds:
  assumes "initialize_units m a b c draws = Inr units"
    and "\<forall>n. 0 \<le> draws n \<and> draws n < 1"
    and "u \<in> set units"
  shows "in_bounds u"
proof -
  let ?n = "nat (a + b + c)"
  let ?ps = "uniform_positions draws ?n"
  have len: "length ?ps = ?n" by (simp add: uniform_positions_def)
  from assms(1) have r: "list_all (in_range ?n) (loop_indices a b c)"
    and u: "units = map (unit_at ?ps 0) [0..a - 1] @ map (unit_at ?ps 1) [a..a + b - 1]
                @ map (unit_at ?ps 2) [a + b..a + b + c - 1]"
    by (auto simp: initialize_units_eq split: if_splits)
  from u assms(3) obtain ty i where "u = unit_at ?ps ty i" "i \<in> set (loop_indices a b c)"
    by (auto simp: loop_indices_def)
  with r have "u = unit_at ?ps ty i" "in_range (length ?ps) i"
    by (simp_all add: list_all_iff len)
  with wrapped_in_positions[of ?ps i] uniform_positions_bounds[OF assms(2), of "wrapped ?ps i" ?n]
  show ?thesis by (simp add: in_bounds_def unit_at_def Unit_init_def)
qed


section \<open>Concrete configurations\<close>

text \<open>
  A prey at \<open>(100, 100)\<close> with two predators in contact, and the same prey with one of them
  far away; the first draw is \<open>0.5\<close>, every later draw is \<open>0.1\<close>.
\<close>

lemma two_predators_eval:
  "check_collision \<lparr>tree = [(100, 100), (103, 100), (100, 104)]\<rparr>
     [Unit_init 0 100 100, Unit_init 1 103 100, Unit_init 1 100 104] 0
     \<lparr>rng_seq = (\<lambda>n. if n = 0 then 1 / 2 else 1 / 10), rng_pos = 0\<rparr>
   = (Some 1, \<lparr>rng_seq = (\<lambda>n. if n = 0 then 1 / 2 else 1 / 10), rng_pos = 2\<rparr>)"
  by (simp add: check_collision_def query_by_type_def query_radius_def query_ball_point_def
      predator_type_def random_random_def position_def Unit_init_def euclid_le_iff euclid_less_iff
      MIN_DISTANCE_def UNIT_RADIUS_def COLLISION_CHANCE_def Let_def)

lemma one_predator_eval:
  "check_collision \<lparr>tree = [(100, 100), (103, 100), (100, 300)]\<rparr>
     [Unit_init 0 100 100, Unit_init 1 103 100, Unit_init 1 100 300] 0
     \<lparr>rng_seq = (\<lambda>n. if n = 0 then 1 / 2 else 1 / 10), rng_pos = 0\<rparr>
   = (None, \<lparr>rng_seq = (\<lambda>n. if n = 0 then 1 / 2 else 1 / 10), rng_pos = 1\<rparr>)"
  by (simp add: check_collision_def query_by_type_def query_radius_def query_ball_point_def
      predator_type_def random_random_def position_def Unit_init_def euclid_le_iff euclid_less_iff
      MIN_DISTANCE_def UNIT_RADIUS_def COLLISION_CHANCE_def Let_def)

lemma two_predators_qualifying:
  "qualifying_predators \<lparr>tree = [(100, 100), (103, 100), (100, 104)]\<rparr>
     [Unit_init 0 100 100, Unit_init 1 103 100, Unit_init 1 100 104] 0 = [1, 2]"
  by (simp add: qualifying_predators_def query_by_type_def query_radius_def query_ball_point_def
      predator_type_def position_def Unit_init_def euclid_le_iff euclid_less_iff
      MIN_DISTANCE_def UNIT_RADIUS_def Let_def)

lemma one_predator_qualifying:
  "qualifying_predators \<lparr>tree = [(100, 100), (103, 100), (100, 300)]\<rparr>
     [Unit_init 0 100 100, Unit_init 1 103 100, Unit_init 1 100 300] 0 = [1]"
  by (simp add: qualifying_predators_def query_by_type_def query_radius_def query_ball_point_def
      predator_type_def position_def Unit_init_def euclid_le_iff euclid_less_iff
      MIN_DISTANCE_def UNIT_RADIUS_def Let_def)

text \<open>A rock at \<open>(100, 100)\<close> whose only prey is at distance 5.\<close>

lemma single_candidate_eval:
  "potential_targets [Unit_init 1 100 100, Unit_init 0 103 104] 0
     = [(1, euclid (103, 104) (100, 100))]"
  by (simp add: potential_targets_def find_nearest_of_type_def type_units_def prey_type_def
      query_def position_def Unit_init_def Let_def)

lemma two_candidates_eval:
  "potential_targets [Unit_init 1 100 100, Unit_init 0 100 110, Unit_init 0 103 104] 0
     = [(2, euclid (103, 104) (100, 100)), (1, euclid (100, 110) (100, 100))]"
  by (simp add: potential_targets_def find_nearest_of_type_def type_units_def prey_type_def
      query_def position_def Unit_init_def Let_def euclid_def)


lemma two_units_eval:
  "initialize_units sample_machine 1 1 0 (\<lambda>n. 1 / 2)
     = Inr [Unit_init 0 480 480, Unit_init 1 480 480]"
  by (simp add: initialize_units_def np_random_uniform_def sample_machine_def row_def Let_def
      UNIT_RADIUS_def WIDTH_def HEIGHT_def)

text \<open>
  Scissors and rock, both at the centre of the area; every draw is \<open>0.5\<close> but the sixth, the
  one \<open>check_collision\<close> makes for the scissors, which is \<open>0.1\<close>.
\<close>

lemma same_point_targets:
  "update_targets [Unit_init 0 480 480, Unit_init 1 480 480]
     \<lparr>rng_seq = (\<lambda>n. if n = 5 then 1 / 10 else 1 / 2), rng_pos = 0\<rparr>
   = ([Unit_init 0 480 480, (Unit_init 1 480 480)\<lparr>unit_target := Some 0\<rparr>],
      \<lparr>rng_seq = (\<lambda>n. if n = 5 then 1 / 10 else 1 / 2), rng_pos = Suc 0\<rparr>)"
  by (simp add: update_targets_def find_target_def find_nearest_of_type_def type_units_def
      prey_type_def query_def position_def Unit_init_def Let_def random_random_def)

lemmas move_eval_defs =
  move_towards_target_def velocity_def attraction_def find_threats_def
  group_behavior_def separation_force_def cohesion_def alignment_def find_same_type_neighbors_def center_attraction_def limit_speed_def
  keep_within_def vadd_def query_by_type_def query_radius_def query_ball_point_def
  predator_type_def position_def Unit_init_def Let_def random_random_def euclid_def
  WIDTH_def HEIGHT_def CENTER_X_def CENTER_Y_def UNIT_RADIUS_def UNIT_SPEED_def
  MIN_DISTANCE_def REPULSION_RADIUS_def GROUP_RADIUS_def RANDOM_MOVEMENT_def

lemma same_point_positions:
  "update_positions \<lparr>tree = [(480, 480), (480, 480)]\<rparr>
     [Unit_init 0 480 480, (Unit_init 1 480 480)\<lparr>unit_target := Some 0\<rparr>]
     \<lparr>rng_seq = (\<lambda>n. if n = 5 then 1 / 10 else 1 / 2), rng_pos = Suc 0\<rparr>
   = ([Unit_init 0 480 480, (Unit_init 1 480 480)\<lparr>unit_target := Some 0\<rparr>],
      \<lparr>rng_seq = (\<lambda>n. if n = 5 then 1 / 10 else 1 / 2), rng_pos = 5\<rparr>)"
  by (simp add: update_positions_def move_eval_defs)

lemma same_point_conversion:
  "convert_units \<lparr>tree = [(480, 480), (480, 480)]\<rparr>
     [Unit_init 0 480 480, (Unit_init 1 480 480)\<lparr>unit_target := Some 0\<rparr>]
     \<lparr>rng_seq = (\<lambda>n. if n = 5 then 1 / 10 else 1 / 2), rng_pos = 5\<rparr>
   = ([Unit_init 1 480 480, (Unit_init 1 480 480)\<lparr>unit_target := Some 0\<rparr>],
      \<lparr>rng_seq = (\<lambda>n. if n = 5 then 1 / 10 else 1 / 2), rng_pos = 6\<rparr>)"
  by (simp add: convert_units_def check_collision_def query_by_type_def query_radius_def
      query_ball_point_def predator_type_def position_def Unit_init_def Let_def
      random_random_def euclid_def MIN_DISTANCE_def UNIT_RADIUS_def COLLISION_CHANCE_def)

lemma same_point_tick:
  "main_tick \<lparr>sim_units = [Unit_init 0 480 480, Unit_init 1 480 480], time_steps = 0,
       status_message = Running, running = True,
       random_state = \<lparr>rng_seq = (\<lambda>n. if n = 5 then 1 / 10 else 1 / 2), rng_pos = 0\<rparr>\<rparr>
   = Inr \<lparr>sim_units = [Unit_init 1 480 480, (Unit_init 1 480 480)\<lparr>unit_target := Some 0\<rparr>],
       time_steps = 1, status_message = Game_Over (Some 1), running = False,
       random_state = \<lparr>rng_seq = (\<lambda>n. if n = 5 then 1 / 10 else 1 / 2), rng_pos = 6\<rparr>\<rparr>"
proof -
  have st: "SpatialTree_init [Unit_init 0 480 480, Unit_init 1 480 480]
      = Inr \<lparr>tree = [(480, 480), (480, 480)]\<rparr>"
    by (simp add: SpatialTree_init_def cKDTree_def position_def Unit_init_def)
  have e: "check_end_condition [Unit_init 1 480 480, (Unit_init 1 480 480)\<lparr>unit_target := Some 0\<rparr>]"
    by (simp add: check_end_condition_def Unit_init_def)
  have u: "unit_type (Unit_init 1 480 480) = 1" by (simp add: Unit_init_def)
  show ?thesis
    by (simp add: main_tick_def st same_point_targets same_point_positions same_point_conversion
        e u MAX_TIME_def)
qed

lemma sqrt_less_iff_sq: "0 \<le> b \<Longrightarrow> sqrt a < b \<longleftrightarrow> a < b\<^sup>2"
  by (metis real_sqrt_less_iff real_sqrt_abs abs_of_nonneg)

lemma less_sqrt_iff_sq: "0 \<le> b \<Longrightarrow> b < sqrt a \<longleftrightarrow> b\<^sup>2 < a"
  by (metis real_sqrt_less_iff real_sqrt_abs abs_of_nonneg)

lemma sqrt_2500: "sqrt 2500 = 50"
  by (rule real_sqrt_unique) simp_all

lemma sqrt_2490: "sqrt (249001 / 100) = 499 / 10"
  by (rule real_sqrt_unique) (simp_all add: power2_eq_square)

lemmas group_eval_defs =
  move_eval_defs separation.simps global_separation.simps repulsion.simps
  GROUP_MIN_DISTANCE_def GROUP_COHESION_def GROUP_ALIGNMENT_def GROUP_SEPARATION_def
  REPULSION_FACTOR_def CENTER_FORCE_def
  sqrt_less_iff_sq less_sqrt_iff_sq sqrt_2500 sqrt_2490 power_divide

text \<open>
  Two scissors 50 apart, at rest, with every draw \<open>0.5\<close>: the first one moved alone, the
  second one moved after it, and the second one moved alone.
\<close>

lemma pair_first_moved:
  "move_towards_target \<lparr>tree = [(480, 480), (530, 480)]\<rparr>
     [Unit_init 0 480 480, Unit_init 0 530 480] 0 \<lparr>rng_seq = (\<lambda>n. 1 / 2), rng_pos = 0\<rparr>
   = ([\<lparr>unit_type = 0, unit_x = 4801 / 10, unit_y = 480, unit_target = None,
         unit_vx = 1 / 10, unit_vy = 0\<rparr>, Unit_init 0 530 480],
      \<lparr>rng_seq = (\<lambda>n. 1 / 2), rng_pos = 2\<rparr>)"
  by (simp add: group_eval_defs)

lemma pair_second_moved:
  "move_towards_target \<lparr>tree = [(480, 480), (530, 480)]\<rparr>
     [\<lparr>unit_type = 0, unit_x = 4801 / 10, unit_y = 480, unit_target = None,
         unit_vx = 1 / 10, unit_vy = 0\<rparr>, Unit_init 0 530 480] (Suc 0)
     \<lparr>rng_seq = (\<lambda>n. 1 / 2), rng_pos = 2\<rparr>
   = ([\<lparr>unit_type = 0, unit_x = 4801 / 10, unit_y = 480, unit_target = None,
         unit_vx = 1 / 10, unit_vy = 0\<rparr>,
       \<lparr>unit_type = 0, unit_x = 52991 / 100, unit_y = 480, unit_target = None,
         unit_vx = - 9 / 100, unit_vy = 0\<rparr>],
      \<lparr>rng_seq = (\<lambda>n. 1 / 2), rng_pos = 4\<rparr>)"
  by (simp add: group_eval_defs)

lemma pair_second_first:
  "move_towards_target \<lparr>tree = [(480, 480), (530, 480)]\<rparr>
     [Unit_init 0 480 480, Unit_init 0 530 480] (Suc 0) \<lparr>rng_seq = (\<lambda>n. 1 / 2), rng_pos = 0\<rparr>
   = ([Unit_init 0 480 480,
       \<lparr>unit_type = 0, unit_x = 5299 / 10, unit_y = 480, unit_target = None,
         unit_vx = - 1 / 10, unit_vy = 0\<rparr>],
      \<lparr>rng_seq = (\<lambda>n. 1 / 2), rng_pos = 2\<rparr>)"
  by (simp add: group_eval_defs)

lemma pair_positions:
  "update_positions \<lparr>tree = [(480, 480), (530, 480)]\<rparr>
     [Unit_init 0 480 480, Unit_init 0 530 480] \<lparr>rng_seq = (\<lambda>n. 1 / 2), rng_pos = 0\<rparr>
   = ([\<lparr>unit_type = 0, unit_x = 4801 / 10, unit_y = 480, unit_target = None,
         unit_vx = 1 / 10, unit_vy = 0\<rparr>,
       \<lparr>unit_type = 0, unit_x = 52991 / 100, unit_y = 480, unit_target = None,
         unit_vx = - 9 / 100, unit_vy = 0\<rparr>],
      \<lparr>rng_seq = (\<lambda>n. 1 / 2), rng_pos = 4\<rparr>)"
proof -
  have "update_positions \<lparr>tree = [(480, 480), (530, 480)]\<rparr>
     [Unit_init 0 480 480, Unit_init 0 530 480] \<lparr>rng_seq = (\<lambda>n. 1 / 2), rng_pos = 0\<rparr>
    = move_loop \<lparr>tree = [(480, 480), (530, 480)]\<rparr> [0, 1]
     [Unit_init 0 480 480, Unit_init 0 530 480] \<lparr>rng_seq = (\<lambda>n. 1 / 2), rng_pos = 0\<rparr>"
    by (simp add: update_positions_def)
  then show ?thesis
    by (simp add: pair_first_moved pair_second_moved)
qed

section \<open>C1: conversions are computed from the snapshot before conversion\<close>

text \<open>
  C1. In every tick that \<open>main_tick\<close> completes there is one list \<open>units2\<close>, the units as the
  position pass left them and before any conversion, such that for every agent \<open>i\<close> the
  unit after the tick is \<open>units2 ! i\<close> with its type replaced by what \<open>check_collision\<close>
  returns for \<open>i\<close> on \<open>units2\<close> itself (positions and types of all agents as in \<open>units2\<close>,
  generator as the agents before \<open>i\<close> left it, themselves evaluated on \<open>units2\<close>): no agent's
  converted type is seen by another agent's evaluation in the same tick.
\<close>

theorem conversions_from_snapshot:
  assumes "main_tick s = Inr s'" and "i < length (sim_units s)"
  shows "\<exists>st units2 g2.
      SpatialTree_init (sim_units s) = Inr st
    \<and> update_positions st (fst (update_targets (sim_units s) (random_state s)))
          (snd (update_targets (sim_units s) (random_state s))) = (units2, g2)
    \<and> convert_units st units2 g2 = (sim_units s', random_state s')
    \<and> length units2 = length (sim_units s) \<and> length (sim_units s') = length (sim_units s)
    \<and> sim_units s' ! i =
        (case fst (check_collision st units2 i (collision_rng st units2 g2 i)) of
           None \<Rightarrow> units2 ! i
         | Some t \<Rightarrow> (units2 ! i)\<lparr>unit_type := t\<rparr>)
    \<and> random_state s' = collision_rng st units2 g2 (length units2)"
proof -
  from main_tick_snapshot[OF assms(1)] obtain st units2 g2 where
    st: "SpatialTree_init (sim_units s) = Inr st"
    and p: "update_positions st (fst (update_targets (sim_units s) (random_state s)))
          (snd (update_targets (sim_units s) (random_state s))) = (units2, g2)"
    and c: "convert_units st units2 g2 = (sim_units s', random_state s')"
    and l: "length units2 = length (sim_units s)" "length (sim_units s') = length (sim_units s)"
    by blast
  from assms(2) l have i: "i < length units2" by simp
  from convert_units_nth[OF c i]
  have "sim_units s' ! i =
        (case fst (check_collision st units2 i (collision_rng st units2 g2 i)) of
           None \<Rightarrow> units2 ! i
         | Some t \<Rightarrow> (units2 ! i)\<lparr>unit_type := t\<rparr>)"
    by (simp add: collision_outcome_def)
  with st p c l convert_units_length(2)[OF c] show ?thesis by blast
qed

theorem conversions_from_snapshot_witness:
  "main_tick \<lparr>sim_units = [Unit_init 0 480 480, Unit_init 1 480 480], time_steps = 0,
       status_message = Running, running = True,
       random_state = \<lparr>rng_seq = (\<lambda>n. if n = 5 then 1 / 10 else 1 / 2), rng_pos = 0\<rparr>\<rparr>
   = Inr \<lparr>sim_units = [Unit_init 1 480 480, (Unit_init 1 480 480)\<lparr>unit_target := Some 0\<rparr>],
       time_steps = 1, status_message = Game_Over (Some 1), running = False,
       random_state = \<lparr>rng_seq = (\<lambda>n. if n = 5 then 1 / 10 else 1 / 2), rng_pos = 6\<rparr>\<rparr>
   \<and> (\<exists>st units2 g2.
         SpatialTree_init [Unit_init 0 480 480, Unit_init 1 480 480] = Inr st
       \<and> length units2 = 2
       \<and> Unit_init 1 480 480 =
           (case fst (check_collision st units2 0 (collision_rng st units2 g2 0)) of
              None \<Rightarrow> units2 ! 0
            | Some t \<Rightarrow> (units2 ! 0)\<lparr>unit_type := t\<rparr>))"
proof -
  let ?gen = "\<lparr>rng_seq = (\<lambda>n. if n = 5 then 1 / 10 else 1 / 2), rng_pos = 0\<rparr>"
  let ?a = "\<lparr>sim_units = [Unit_init 0 480 480, Unit_init 1 480 480], time_steps = 0,
       status_message = Running, running = True, random_state = ?gen\<rparr>"
  let ?b = "\<lparr>sim_units = [Unit_init 1 480 480, (Unit_init 1 480 480)\<lparr>unit_target := Some 0\<rparr>],
       time_steps = 1, status_message = Game_Over (Some 1), running = False,
       random_state = \<lparr>rng_seq = (\<lambda>n. if n = 5 then 1 / 10 else 1 / 2), rng_pos = 6\<rparr>\<rparr>"
  have t: "main_tick ?a = Inr ?b" by (rule same_point_tick)
  have i: "0 < length (sim_units ?a)" by simp
  from conversions_from_snapshot[OF t i] obtain st units2 g2 where
    "SpatialTree_init (sim_units ?a) = Inr st" "length units2 = length (sim_units ?a)"
    "sim_units ?b ! 0 =
        (case fst (check_collision st units2 0 (collision_rng st units2 g2 0)) of
           None \<Rightarrow> units2 ! 0
         | Some t \<Rightarrow> (units2 ! 0)\<lparr>unit_type := t\<rparr>)"
    by blast
  then have "SpatialTree_init [Unit_init 0 480 480, Unit_init 1 480 480] = Inr st
       \<and> length units2 = 2
       \<and> Unit_init 1 480 480 =
           (case fst (check_collision st units2 0 (collision_rng st units2 g2 0)) of
              None \<Rightarrow> units2 ! 0
            | Some t \<Rightarrow> (units2 ! 0)\<lparr>unit_type := t\<rparr>)"
    by simp
  then have "\<exists>st units2 g2.
         SpatialTree_init [Unit_init 0 480 480, Unit_init 1 480 480] = Inr st
       \<and> length units2 = 2
       \<and> Unit_init 1 480 480 =
           (case fst (check_collision st units2 0 (collision_rng st units2 g2 0)) of
              None \<Rightarrow> units2 ! 0
            | Some t \<Rightarrow> (units2 ! 0)\<lparr>unit_type := t\<rparr>)"
    by blast
  with t show ?thesis by blast
qed

section \<open>C2: conversion attempts\<close>

text \<open>
  C2 as stated: at most one draw against the conversion chance, however many predators
  qualify, and an outcome that does not depend on how many qualify. It fails with two
  qualifying predators and the draws \<open>0.5, 0.1\<close>: the resolver draws twice and converts on
  the second draw, while with one qualifying predator and the same draws it draws once and
  does not convert.
\<close>

theorem check_collision_two_draws_counterexample:
  "qualifying_predators \<lparr>tree = [(100, 100), (103, 100), (100, 104)]\<rparr>
     [Unit_init 0 100 100, Unit_init 1 103 100, Unit_init 1 100 104] 0 = [1, 2]
   \<and> check_collision \<lparr>tree = [(100, 100), (103, 100), (100, 104)]\<rparr>
     [Unit_init 0 100 100, Unit_init 1 103 100, Unit_init 1 100 104] 0
     \<lparr>rng_seq = (\<lambda>n. if n = 0 then 1 / 2 else 1 / 10), rng_pos = 0\<rparr>
   = (Some 1, \<lparr>rng_seq = (\<lambda>n. if n = 0 then 1 / 2 else 1 / 10), rng_pos = 2\<rparr>)
   \<and> qualifying_predators \<lparr>tree = [(100, 100), (103, 100), (100, 300)]\<rparr>
     [Unit_init 0 100 100, Unit_init 1 103 100, Unit_init 1 100 300] 0 = [1]
   \<and> check_collision \<lparr>tree = [(100, 100), (103, 100), (100, 300)]\<rparr>
     [Unit_init 0 100 100, Unit_init 1 103 100, Unit_init 1 100 300] 0
     \<lparr>rng_seq = (\<lambda>n. if n = 0 then 1 / 2 else 1 / 10), rng_pos = 0\<rparr>
   = (None, \<lparr>rng_seq = (\<lambda>n. if n = 0 then 1 / 2 else 1 / 10), rng_pos = 1\<rparr>)"
  using two_predators_eval one_predator_eval two_predators_qualifying one_predator_qualifying
  by simp

text \<open>
  C2 as amended: for every agent, \<open>check_collision\<close> returns at most one conversion, always
  to the predator type, and makes one draw against the conversion chance for each qualifying
  predator in query order until a draw succeeds. With \<open>m\<close> qualifying predators it makes
  \<open>d \<le> m\<close> draws, all but the last of them failed; it converts exactly when one of the next
  \<open>m\<close> draws is below the chance, and makes all \<open>m\<close> draws when it does not convert. The
  outcome depends on the number of qualifying predators and on the draws, not on which
  predators qualified.
\<close>

theorem check_collision_attempts:
  assumes "check_collision st units i g = (r, g')"
  shows "rng_seq g' = rng_seq g
    \<and> (\<exists>d. d \<le> length (qualifying_predators st units i)
          \<and> rng_pos g' = rng_pos g + d
          \<and> (\<forall>k. Suc k < d \<longrightarrow> \<not> hit g k)
          \<and> (r = None \<longrightarrow> d = length (qualifying_predators st units i))
          \<and> (r \<noteq> None \<longrightarrow> 0 < d \<and> hit g (d - 1)))
    \<and> r = (if \<exists>k<length (qualifying_predators st units i). hit g k
            then Some (predator_type (unit_type (units ! i))) else None)"
proof -
  let ?p = "predator_type (unit_type (units ! i))"
  let ?m = "length (qualifying_predators st units i)"
  from assms have "collision_loop units i ?p (query_by_type st units i (MIN_DISTANCE * 2) ?p) g = (r, g')"
    by (simp add: check_collision_def Let_def)
  from collision_loop_draws[OF this] obtain d where
    seq: "rng_seq g' = rng_seq g" and d1: "d \<le> ?m" and d2: "rng_pos g' = rng_pos g + d"
    and d3: "\<forall>k. Suc k < d \<longrightarrow> \<not> hit g k"
    and d4: "case r of Some t \<Rightarrow> t = ?p \<and> 0 < d \<and> hit g (d - 1)
             | None \<Rightarrow> d = ?m \<and> (\<forall>k<d. \<not> hit g k)"
    unfolding qualifying_predators_def by blast
  have n: "r = None \<longrightarrow> d = ?m" using d4 by (cases r) auto
  have s: "r \<noteq> None \<longrightarrow> 0 < d \<and> hit g (d - 1)" using d4 by (cases r) auto
  have "r = (if \<exists>k<?m. hit g k then Some ?p else None)"
  proof (cases r)
    case None
    with d4 show ?thesis by auto
  next
    case (Some t)
    with d4 have "t = ?p" "0 < d" "hit g (d - 1)" by simp_all
    moreover from this d1 have "d - 1 < ?m" by simp
    ultimately show ?thesis using Some by auto
  qed
  with seq d1 d2 d3 n s show ?thesis by blast
qed

theorem check_collision_attempts_witness:
  "check_collision \<lparr>tree = [(100, 100), (103, 100), (100, 104)]\<rparr>
     [Unit_init 0 100 100, Unit_init 1 103 100, Unit_init 1 100 104] 0
     \<lparr>rng_seq = (\<lambda>n. if n = 0 then 1 / 2 else 1 / 10), rng_pos = 0\<rparr>
   = (Some 1, \<lparr>rng_seq = (\<lambda>n. if n = 0 then 1 / 2 else 1 / 10), rng_pos = 2\<rparr>)
   \<and> (\<exists>k<2. hit \<lparr>rng_seq = (\<lambda>n. if n = 0 then 1 / 2 else 1 / 10), rng_pos = 0\<rparr> k)
   \<and> Some (1::int) = Some (predator_type (unit_type
        ([Unit_init 0 100 100, Unit_init 1 103 100, Unit_init 1 100 104] ! 0)))"
proof -
  let ?us = "[Unit_init 0 100 100, Unit_init 1 103 100, Unit_init 1 100 104]"
  let ?st = "\<lparr>tree = [(100, 100), (103, 100), (100, 104)]\<rparr>"
  let ?g = "\<lparr>rng_seq = (\<lambda>n. if n = 0 then 1 / 2 else 1 / 10), rng_pos = 0\<rparr>"
  let ?g' = "\<lparr>rng_seq = (\<lambda>n. if n = 0 then 1 / 2 else 1 / 10), rng_pos = 2\<rparr>"
  have e: "check_collision ?st ?us 0 ?g = (Some 1, ?g')" by (rule two_predators_eval)
  have m: "length (qualifying_predators ?st ?us 0) = 2"
    by (simp add: two_predators_qualifying)
  from check_collision_attempts[OF e]
  have x: "Some (1::int) = (if \<exists>k<length (qualifying_predators ?st ?us 0). hit ?g k
            then Some (predator_type (unit_type (?us ! 0))) else None)"
    by blast
  have k: "\<exists>k<2. hit ?g k"
    using x unfolding m by (cases "\<exists>k<2. hit ?g k") simp_all
  with x have "Some (1::int) = Some (predator_type (unit_type (?us ! 0)))"
    unfolding m by simp
  with k have "(\<exists>k<2. hit ?g k) \<and> Some (1::int) = Some (predator_type (unit_type (?us ! 0)))"
    by blast
  with e show ?thesis by simp
qed

section \<open>C3: positions stay inside the play area\<close>

text \<open>
  C3. After every tick every agent's \<open>x\<close> lies in \<open>[UNIT_RADIUS, WIDTH - UNIT_RADIUS]\<close> and its
  \<open>y\<close> in \<open>[UNIT_RADIUS, HEIGHT - UNIT_RADIUS]\<close>; so do the positions that initialisation draws
  (for numpy draws in \<open>[0, 1)\<close>), the position that \<^verbatim>\<open>move_towards_target\<close> stores for its
  agent, and the coordinate that each per-axis clamp-and-bounce returns, whatever it is given.
\<close>

theorem positions_stay_in_bounds:
  "(main_tick s = Inr s' \<and> i < length (sim_units s') \<longrightarrow> in_bounds (sim_units s' ! i))
   \<and> (main_init m a b c draws g0 = Inr s0 \<and> (\<forall>n. 0 \<le> draws n \<and> draws n < 1)
        \<and> i < length (sim_units s0) \<longrightarrow> in_bounds (sim_units s0 ! i))
   \<and> (i < length units \<longrightarrow> in_bounds (fst (move_towards_target st units i g) ! i))
   \<and> UNIT_RADIUS \<le> fst (keep_within WIDTH pv) \<and> fst (keep_within WIDTH pv) \<le> WIDTH - UNIT_RADIUS
   \<and> UNIT_RADIUS \<le> fst (keep_within HEIGHT pv) \<and> fst (keep_within HEIGHT pv) \<le> HEIGHT - UNIT_RADIUS"
proof -
  have a: "main_tick s = Inr s' \<and> i < length (sim_units s') \<longrightarrow> in_bounds (sim_units s' ! i)"
    using main_tick_in_bounds[of s s' i] by blast
  have b: "main_init m a b c draws g0 = Inr s0 \<and> (\<forall>n. 0 \<le> draws n \<and> draws n < 1)
        \<and> i < length (sim_units s0) \<longrightarrow> in_bounds (sim_units s0 ! i)"
  proof
    assume h: "main_init m a b c draws g0 = Inr s0 \<and> (\<forall>n. 0 \<le> draws n \<and> draws n < 1)
        \<and> i < length (sim_units s0)"
    then have "initialize_units m a b c draws = Inr (sim_units s0)"
      by (auto simp: main_init_def split: sum.splits)
    moreover from h have "sim_units s0 ! i \<in> set (sim_units s0)" by simp
    ultimately show "in_bounds (sim_units s0 ! i)"
      using h initialize_units_in_bounds by blast
  qed
  have c: "i < length units \<longrightarrow> in_bounds (fst (move_towards_target st units i g) ! i)"
    by (simp add: move_towards_target_eq moved_in_bounds)
  have d: "UNIT_RADIUS \<le> fst (keep_within WIDTH pv) \<and> fst (keep_within WIDTH pv) \<le> WIDTH - UNIT_RADIUS"
    by (rule keep_within_bounds) (simp add: UNIT_RADIUS_def WIDTH_def)
  have e: "UNIT_RADIUS \<le> fst (keep_within HEIGHT pv) \<and> fst (keep_within HEIGHT pv) \<le> HEIGHT - UNIT_RADIUS"
    by (rule keep_within_bounds) (simp add: UNIT_RADIUS_def HEIGHT_def)
  from a b c d e show ?thesis by blast
qed

theorem positions_stay_in_bounds_witness:
  "main_init sample_machine 1 1 0 (\<lambda>n. 1 / 2) \<lparr>rng_seq = (\<lambda>n. if n = 5 then 1 / 10 else 1 / 2), rng_pos = 0\<rparr>
   = Inr \<lparr>sim_units = [Unit_init 0 480 480, Unit_init 1 480 480], time_steps = 0,
       status_message = Running, running = True,
       random_state = \<lparr>rng_seq = (\<lambda>n. if n = 5 then 1 / 10 else 1 / 2), rng_pos = 0\<rparr>\<rparr>
   \<and> in_bounds (Unit_init 0 480 480)
   \<and> main_tick \<lparr>sim_units = [Unit_init 0 480 480, Unit_init 1 480 480], time_steps = 0,
       status_message = Running, running = True,
       random_state = \<lparr>rng_seq = (\<lambda>n. if n = 5 then 1 / 10 else 1 / 2), rng_pos = 0\<rparr>\<rparr>
   = Inr \<lparr>sim_units = [Unit_init 1 480 480, (Unit_init 1 480 480)\<lparr>unit_target := Some 0\<rparr>],
       time_steps = 1, status_message = Game_Over (Some 1), running = False,
       random_state = \<lparr>rng_seq = (\<lambda>n. if n = 5 then 1 / 10 else 1 / 2), rng_pos = 6\<rparr>\<rparr>
   \<and> in_bounds (Unit_init 1 480 480)
   \<and> fst (keep_within WIDTH (1000, 2)) = 955"
proof -
  let ?gen = "\<lparr>rng_seq = (\<lambda>n. if n = 5 then 1 / 10 else 1 / 2), rng_pos = 0\<rparr>"
  let ?a = "\<lparr>sim_units = [Unit_init 0 480 480, Unit_init 1 480 480], time_steps = 0,
       status_message = Running, running = True, random_state = ?gen\<rparr>"
  let ?b = "\<lparr>sim_units = [Unit_init 1 480 480, (Unit_init 1 480 480)\<lparr>unit_target := Some 0\<rparr>],
       time_steps = 1, status_message = Game_Over (Some 1), running = False,
       random_state = \<lparr>rng_seq = (\<lambda>n. if n = 5 then 1 / 10 else 1 / 2), rng_pos = 6\<rparr>\<rparr>"
  have t: "main_tick ?a = Inr ?b" by (rule same_point_tick)
  have i: "main_init sample_machine 1 1 0 (\<lambda>n. 1 / 2) ?gen = Inr ?a"
    by (simp add: main_init_def two_units_eval)
  have d: "\<forall>n::nat. (0::real) \<le> 1 / 2 \<and> (1::real) / 2 < 1" by simp
  from positions_stay_in_bounds[of ?a ?b 0 sample_machine 1 1 0 "\<lambda>n. 1 / 2" ?gen ?a]
  have "main_tick ?a = Inr ?b \<and> 0 < length (sim_units ?b) \<longrightarrow> in_bounds (sim_units ?b ! 0)"
    and "main_init sample_machine 1 1 0 (\<lambda>n. 1 / 2) ?gen = Inr ?a \<and> (\<forall>n::nat. (0::real) \<le> 1 / 2 \<and> (1::real) / 2 < 1)
        \<and> 0 < length (sim_units ?a) \<longrightarrow> in_bounds (sim_units ?a ! 0)"
    by blast+
  with t i d have "in_bounds (sim_units ?b ! 0)" "in_bounds (sim_units ?a ! 0)"
    by simp_all
  then have "in_bounds (Unit_init 1 480 480)" "in_bounds (Unit_init 0 480 480)" by simp_all
  moreover have "fst (keep_within WIDTH (1000, 2)) = 955"
    by (simp add: keep_within_def WIDTH_def UNIT_RADIUS_def)
  ultimately show ?thesis using t i by simp
qed

section \<open>C4: the cyclic relation\<close>

text \<open>
  C4. For every type \<open>t\<close> in \<open>{0, 1, 2}\<close>, \<open>prey_type t = (t + 2) mod 3\<close> and
  \<open>predator_type t = (t + 1) mod 3\<close>; \<open>prey_type (predator_type t) = t\<close>; neither relation
  has a fixed point, and the relation is a 3-cycle. Targeting, threat repulsion and collision
  use them uniformly, for an agent \<open>i\<close> of type \<open>t\<close>:
  the candidates of \<open>find_target\<close> are \<open>min 3 n\<close> distinct agents out of the \<open>n\<close> other agents
  of type \<open>prey_type t\<close>; \<open>find_target\<close> returns no target exactly when there is no
  such agent, and a target it returns is one of the candidates, so another agent of type
  \<open>prey_type t\<close>;
  the threats of \<open>find_threats\<close> are, in the order of the list, exactly the other agents of
  type \<open>predator_type t\<close> that the tree has within \<^verbatim>\<open>REPULSION_RADIUS\<close>, each with its
  present distance;
  the predators that qualify in \<open>check_collision\<close> are exactly the other agents of type
  \<open>predator_type t\<close> that the tree has within \<open>2 * MIN_DISTANCE\<close> and that are now closer
  than \<^verbatim>\<open>MIN_DISTANCE\<close>; and \<open>check_collision\<close> returns \<open>predator_type t\<close> when one of the
  draws for them is below the conversion chance, and nothing otherwise.
\<close>

theorem cyclic_relation:
  assumes "t \<in> {0, 1, 2}"
  shows "prey_type t = (t + 2) mod 3 \<and> predator_type t = (t + 1) mod 3
    \<and> prey_type (predator_type t) = t \<and> predator_type (prey_type t) = t
    \<and> prey_type t \<noteq> t \<and> predator_type t \<noteq> t
    \<and> prey_type t \<in> {0, 1, 2} \<and> predator_type t \<in> {0, 1, 2}
    \<and> predator_type (predator_type t) \<noteq> t
    \<and> predator_type (predator_type (predator_type t)) = t
    \<and> (unit_type (units ! i) = t \<longrightarrow>
          distinct (map fst (potential_targets units i))
          \<and> set (map fst (potential_targets units i))
              \<subseteq> {j. j < length units \<and> j \<noteq> i \<and> unit_type (units ! j) = prey_type t}
          \<and> length (potential_targets units i)
              = min 3 (card {j. j < length units \<and> j \<noteq> i \<and> unit_type (units ! j) = prey_type t})
          \<and> (fst (find_target units i g) = None)
              = ({j. j < length units \<and> j \<noteq> i \<and> unit_type (units ! j) = prey_type t} = {})
          \<and> (valid_rng g \<and> fst (find_target units i g) = Some j \<longrightarrow>
                j \<in> set (map fst (potential_targets units i))
                \<and> j < length units \<and> j \<noteq> i \<and> unit_type (units ! j) = prey_type t)
          \<and> find_threats st units i
              = map (\<lambda>j. (j, euclid (position (units ! i)) (position (units ! j))))
                  (filter (\<lambda>j. j \<noteq> i
                               \<and> euclid (tree st ! j) (position (units ! i)) \<le> REPULSION_RADIUS
                               \<and> unit_type (units ! j) = predator_type t)
                     [0..<length (tree st)])
          \<and> qualifying_predators st units i
              = filter (\<lambda>j. j \<noteq> i
                            \<and> euclid (tree st ! j) (position (units ! i)) \<le> MIN_DISTANCE * 2
                            \<and> unit_type (units ! j) = predator_type t
                            \<and> euclid (position (units ! i)) (position (units ! j)) < MIN_DISTANCE)
                  [0..<length (tree st)]
          \<and> fst (check_collision st units i g)
              = (if \<exists>k<length (qualifying_predators st units i). hit g k
                 then Some (predator_type t) else None))"
proof -
  from assms have "t = 0 \<or> t = 1 \<or> t = 2" by simp
  then have alg: "prey_type t = (t + 2) mod 3 \<and> predator_type t = (t + 1) mod 3
    \<and> prey_type (predator_type t) = t \<and> predator_type (prey_type t) = t
    \<and> prey_type t \<noteq> t \<and> predator_type t \<noteq> t
    \<and> prey_type t \<in> {0, 1, 2} \<and> predator_type t \<in> {0, 1, 2}
    \<and> predator_type (predator_type t) \<noteq> t
    \<and> predator_type (predator_type (predator_type t)) = t"
    by (auto simp: prey_type_def predator_type_def)
  have use: "unit_type (units ! i) = t \<longrightarrow>
          distinct (map fst (potential_targets units i))
          \<and> set (map fst (potential_targets units i))
              \<subseteq> {j. j < length units \<and> j \<noteq> i \<and> unit_type (units ! j) = prey_type t}
          \<and> length (potential_targets units i)
              = min 3 (card {j. j < length units \<and> j \<noteq> i \<and> unit_type (units ! j) = prey_type t})
          \<and> (fst (find_target units i g) = None)
              = ({j. j < length units \<and> j \<noteq> i \<and> unit_type (units ! j) = prey_type t} = {})
          \<and> (valid_rng g \<and> fst (find_target units i g) = Some j \<longrightarrow>
                j \<in> set (map fst (potential_targets units i))
                \<and> j < length units \<and> j \<noteq> i \<and> unit_type (units ! j) = prey_type t)
          \<and> find_threats st units i
              = map (\<lambda>j. (j, euclid (position (units ! i)) (position (units ! j))))
                  (filter (\<lambda>j. j \<noteq> i
                               \<and> euclid (tree st ! j) (position (units ! i)) \<le> REPULSION_RADIUS
                               \<and> unit_type (units ! j) = predator_type t)
                     [0..<length (tree st)])
          \<and> qualifying_predators st units i
              = filter (\<lambda>j. j \<noteq> i
                            \<and> euclid (tree st ! j) (position (units ! i)) \<le> MIN_DISTANCE * 2
                            \<and> unit_type (units ! j) = predator_type t
                            \<and> euclid (position (units ! i)) (position (units ! j)) < MIN_DISTANCE)
                  [0..<length (tree st)]
          \<and> fst (check_collision st units i g)
              = (if \<exists>k<length (qualifying_predators st units i). hit g k
                 then Some (predator_type t) else None)"
  proof
    assume ty: "unit_type (units ! i) = t"
    note c = potential_targets_candidates[of units i, unfolded ty]
    from c have 1: "distinct (map fst (potential_targets units i))" by (rule conjunct1)
    from c have 2: "set (map fst (potential_targets units i))
              \<subseteq> {j. j < length units \<and> j \<noteq> i \<and> unit_type (units ! j) = prey_type t}"
      by (rule conjunct1[OF conjunct2])
    from c have 3: "length (potential_targets units i)
              = min 3 (card {j. j < length units \<and> j \<noteq> i \<and> unit_type (units ! j) = prey_type t})"
      by (rule conjunct2[OF conjunct2])
    have 4: "(fst (find_target units i g) = None)
              = ({j. j < length units \<and> j \<noteq> i \<and> unit_type (units ! j) = prey_type t} = {})"
      by (rule find_target_none_iff[of units i g, unfolded ty])
    have 5: "valid_rng g \<and> fst (find_target units i g) = Some j \<longrightarrow>
                j \<in> set (map fst (potential_targets units i))
                \<and> j < length units \<and> j \<noteq> i \<and> unit_type (units ! j) = prey_type t"
    proof
      assume h: "valid_rng g \<and> fst (find_target units i g) = Some j"
      then have "j \<in> set (map fst (potential_targets units i))"
        using find_target_candidate[of g units i j] by blast
      moreover from h find_target_type[of g units i j]
      have "j < length units \<and> j \<noteq> i \<and> unit_type (units ! j) = prey_type (unit_type (units ! i))"
        by blast
      ultimately show "j \<in> set (map fst (potential_targets units i))
                \<and> j < length units \<and> j \<noteq> i \<and> unit_type (units ! j) = prey_type t"
        unfolding ty by (intro conjI) simp_all
    qed
    note 6 = find_threats_eq[of st units i, unfolded ty]
    note 7 = qualifying_predators_eq[of st units i, unfolded ty]
    note 8 = check_collision_result[of st units i g, unfolded ty]
    from 1 2 3 4 5 6 7 8
    show "distinct (map fst (potential_targets units i))
          \<and> set (map fst (potential_targets units i))
              \<subseteq> {j. j < length units \<and> j \<noteq> i \<and> unit_type (units ! j) = prey_type t}
          \<and> length (potential_targets units i)
              = min 3 (card {j. j < length units \<and> j \<noteq> i \<and> unit_type (units ! j) = prey_type t})
          \<and> (fst (find_target units i g) = None)
              = ({j. j < length units \<and> j \<noteq> i \<and> unit_type (units ! j) = prey_type t} = {})
          \<and> (valid_rng g \<and> fst (find_target units i g) = Some j \<longrightarrow>
                j \<in> set (map fst (potential_targets units i))
                \<and> j < length units \<and> j \<noteq> i \<and> unit_type (units ! j) = prey_type t)
          \<and> find_threats st units i
              = map (\<lambda>j. (j, euclid (position (units ! i)) (position (units ! j))))
                  (filter (\<lambda>j. j \<noteq> i
                               \<and> euclid (tree st ! j) (position (units ! i)) \<le> REPULSION_RADIUS
                               \<and> unit_type (units ! j) = predator_type t)
                     [0..<length (tree st)])
          \<and> qualifying_predators st units i
              = filter (\<lambda>j. j \<noteq> i
                            \<and> euclid (tree st ! j) (position (units ! i)) \<le> MIN_DISTANCE * 2
                            \<and> unit_type (units ! j) = predator_type t
                            \<and> euclid (position (units ! i)) (position (units ! j)) < MIN_DISTANCE)
                  [0..<length (tree st)]
          \<and> fst (check_collision st units i g)
              = (if \<exists>k<length (qualifying_predators st units i). hit g k
                 then Some (predator_type t) else None)"
      by (intro conjI)
  qed
  from alg use show ?thesis by (elim conjE) (intro conjI; assumption)
qed

theorem cyclic_relation_witness:
  "(0::int) \<in> {0, 1, 2} \<and> prey_type 0 = 2 \<and> predator_type 0 = 1
   \<and> prey_type (predator_type 0) = 0 \<and> prey_type 0 \<noteq> 0 \<and> predator_type 0 \<noteq> 0
   \<and> unit_type ([Unit_init 0 100 100, Unit_init 1 103 100, Unit_init 2 100 104] ! 0) = 0
   \<and> valid_rng \<lparr>rng_seq = (\<lambda>n. 1 / 10), rng_pos = 0\<rparr>
   \<and> fst (find_target [Unit_init 0 100 100, Unit_init 1 103 100, Unit_init 2 100 104] 0
        \<lparr>rng_seq = (\<lambda>n. 1 / 10), rng_pos = 0\<rparr>) = Some 2
   \<and> unit_type ([Unit_init 0 100 100, Unit_init 1 103 100, Unit_init 2 100 104] ! 2) = prey_type 0
   \<and> length (potential_targets [Unit_init 0 100 100, Unit_init 1 103 100, Unit_init 2 100 104] 0) = 1
   \<and> map fst (find_threats \<lparr>tree = [(100, 100), (103, 100), (100, 104)]\<rparr>
        [Unit_init 0 100 100, Unit_init 1 103 100, Unit_init 2 100 104] 0) = [1]
   \<and> unit_type ([Unit_init 0 100 100, Unit_init 1 103 100, Unit_init 2 100 104] ! 1)
       = predator_type 0
   \<and> qualifying_predators \<lparr>tree = [(100, 100), (103, 100), (100, 104)]\<rparr>
        [Unit_init 0 100 100, Unit_init 1 103 100, Unit_init 2 100 104] 0 = [1]
   \<and> fst (check_collision \<lparr>tree = [(100, 100), (103, 100), (100, 104)]\<rparr>
        [Unit_init 0 100 100, Unit_init 1 103 100, Unit_init 2 100 104] 0
        \<lparr>rng_seq = (\<lambda>n. 1 / 10), rng_pos = 0\<rparr>) = Some (predator_type 0)
   \<and> fst (find_target [Unit_init 0 100 100, Unit_init 1 103 100, Unit_init 1 100 104] 0
        \<lparr>rng_seq = (\<lambda>n. 1 / 10), rng_pos = 0\<rparr>) = None"
proof -
  let ?us = "[Unit_init 0 100 100, Unit_init 1 103 100, Unit_init 2 100 104]"
  let ?vs = "[Unit_init 0 100 100, Unit_init 1 103 100, Unit_init 1 100 104]"
  let ?st = "\<lparr>tree = [(100, 100), (103, 100), (100, 104)]\<rparr>"
  let ?g = "\<lparr>rng_seq = (\<lambda>n. 1 / 10), rng_pos = 0\<rparr>"
  have t: "(0::int) \<in> {0, 1, 2}" by simp
  have u: "unit_type (?us ! 0) = 0" by (simp add: Unit_init_def)
  have u': "unit_type (?vs ! 0) = 0" by (simp add: Unit_init_def)
  have v: "valid_rng ?g" by (simp add: valid_rng_def)
  have th: "(j < length ?us \<and> j \<noteq> 0 \<and> unit_type (?us ! j) = prey_type 0) = (j = 2)" for j
  proof -
    consider "j = 0" | "j = 1" | "j = 2" | "3 \<le> j" by linarith
    then show ?thesis by cases (simp_all add: Unit_init_def prey_type_def)
  qed
  have p: "{j. j < length ?us \<and> j \<noteq> 0 \<and> unit_type (?us ! j) = prey_type 0} = {2}"
    unfolding th by simp
  have th': "(j < length ?vs \<and> j \<noteq> 0 \<and> unit_type (?vs ! j) = prey_type 0) = False" for j
  proof -
    consider "j = 0" | "j = 1" | "j = 2" | "3 \<le> j" by linarith
    then show ?thesis by cases (simp_all add: Unit_init_def prey_type_def)
  qed
  have p': "{j. j < length ?vs \<and> j \<noteq> 0 \<and> unit_type (?vs ! j) = prey_type 0} = {}"
    unfolding th' by simp
  note f = cyclic_relation[OF t, where units = ?us and i = 0 and g = ?g and st = ?st]
  note f' = cyclic_relation[OF t, where units = ?vs and i = 0 and g = ?g and st = ?st]
  note use = f[THEN conjunct2, THEN conjunct2, THEN conjunct2, THEN conjunct2, THEN conjunct2, THEN conjunct2, THEN conjunct2, THEN conjunct2, THEN conjunct2, THEN conjunct2, THEN mp, OF u]
  note use' = f'[THEN conjunct2, THEN conjunct2, THEN conjunct2, THEN conjunct2, THEN conjunct2, THEN conjunct2, THEN conjunct2, THEN conjunct2, THEN conjunct2, THEN conjunct2, THEN mp, OF u']
  from f[THEN conjunct1] have a1: "prey_type 0 = 2" by simp
  from f[THEN conjunct2, THEN conjunct1] have a2: "predator_type 0 = 1" by simp
  note a3 = f[THEN conjunct2, THEN conjunct2, THEN conjunct1]
  note a4 = f[THEN conjunct2, THEN conjunct2, THEN conjunct2, THEN conjunct2, THEN conjunct1]
  note a5 = f[THEN conjunct2, THEN conjunct2, THEN conjunct2, THEN conjunct2, THEN conjunct2, THEN conjunct1]
  note n = use[THEN conjunct2, THEN conjunct2, THEN conjunct2, THEN conjunct1]
  have "fst (find_target ?us 0 ?g) \<noteq> None" unfolding n p by simp
  then obtain j where j: "fst (find_target ?us 0 ?g) = Some j" by blast
  from v j have "valid_rng ?g \<and> fst (find_target ?us 0 ?g) = Some j" by (rule conjI)
  from use[THEN conjunct2, THEN conjunct2, THEN conjunct2, THEN conjunct2, THEN conjunct1, THEN mp, OF this]
  have "j < length ?us \<and> j \<noteq> 0 \<and> unit_type (?us ! j) = prey_type 0" by (rule conjunct2)
  then have "j = 2" unfolding th .
  with j have b: "fst (find_target ?us 0 ?g) = Some 2" by simp
  have c1: "unit_type (?us ! 2) = prey_type 0" by (simp add: Unit_init_def a1)
  have c2: "unit_type (?us ! 1) = predator_type 0" by (simp add: Unit_init_def a2)
  have d: "length (potential_targets ?us 0) = 1"
    unfolding use[THEN conjunct2, THEN conjunct2, THEN conjunct1] p by simp
  have e: "map fst (find_threats ?st ?us 0) = [1]"
    unfolding use[THEN conjunct2, THEN conjunct2, THEN conjunct2, THEN conjunct2, THEN conjunct2, THEN conjunct1]
    by (simp add: a2 upt_rec[of 0] upt_rec[of 1] upt_rec[of 2] position_def Unit_init_def
        euclid_le_iff REPULSION_RADIUS_def)
  have q: "qualifying_predators ?st ?us 0 = [1]"
    unfolding use[THEN conjunct2, THEN conjunct2, THEN conjunct2, THEN conjunct2, THEN conjunct2, THEN conjunct2, THEN conjunct1]
    by (simp add: a2 upt_rec[of 0] upt_rec[of 1] upt_rec[of 2] position_def Unit_init_def
        euclid_le_iff euclid_less_iff MIN_DISTANCE_def UNIT_RADIUS_def)
  have hitk: "\<exists>k<length (qualifying_predators ?st ?us 0). hit ?g k"
    unfolding q by (simp add: hit_def COLLISION_CHANCE_def)
  have h: "fst (check_collision ?st ?us 0 ?g) = Some (predator_type 0)"
    using use[THEN conjunct2, THEN conjunct2, THEN conjunct2, THEN conjunct2, THEN conjunct2, THEN conjunct2, THEN conjunct2] hitk by simp
  have k: "fst (find_target ?vs 0 ?g) = None"
    unfolding use'[THEN conjunct2, THEN conjunct2, THEN conjunct2, THEN conjunct1] p' by simp
  from t a1 a2 a3 a4 a5 u v b c1 d e c2 q h k show ?thesis by (intro conjI)
qed

section \<open>C5: radius queries\<close>

text \<open>
  C5 as stated: \<open>query_radius\<close> (and \<open>query_by_type\<close>) returns exactly the other agents
  whose distance from the querying agent is strictly less than the radius. It fails on the
  boundary: with units at \<open>(10, 10)\<close> and \<open>(13, 14)\<close>, at distance exactly 5, a query of
  radius 5 from the first returns the second, in the tree built from these very positions.
\<close>

theorem query_radius_boundary_counterexample:
  "SpatialTree_init [Unit_init 0 10 10, Unit_init 1 13 14] = Inr \<lparr>tree = [(10, 10), (13, 14)]\<rparr>
   \<and> query_radius \<lparr>tree = [(10, 10), (13, 14)]\<rparr> [Unit_init 0 10 10, Unit_init 1 13 14] 0 5 = [1]
   \<and> query_by_type \<lparr>tree = [(10, 10), (13, 14)]\<rparr> [Unit_init 0 10 10, Unit_init 1 13 14] 0 5 1 = [1]
   \<and> \<not> euclid (position ([Unit_init 0 10 10, Unit_init 1 13 14] ! 0))
            (position ([Unit_init 0 10 10, Unit_init 1 13 14] ! 1)) < 5"
  by (simp add: SpatialTree_init_def cKDTree_def query_by_type_def query_radius_def
      query_ball_point_def position_def Unit_init_def euclid_le_iff euclid_less_iff Let_def)

text \<open>
  C5 as amended: for a tree built from the list \<open>units0\<close>, \<open>query_radius\<close> returns exactly
  the other agents whose position at the time the tree was built lies at distance at most
  the radius (the test is \<open>\<le>\<close>) from the querying agent's current position;
  \<open>query_by_type\<close> returns those of them that have the given type now; neither ever contains
  the querying agent, even when its type matches, and no agent is returned twice.
\<close>

theorem query_radius_exact:
  assumes "SpatialTree_init units0 = Inr st"
  shows "set (query_radius st units i r) =
           {j. j < length units0 \<and> j \<noteq> i
               \<and> euclid (position (units0 ! j)) (position (units ! i)) \<le> r}
       \<and> set (query_by_type st units i r ty) =
           {j. j < length units0 \<and> j \<noteq> i
               \<and> euclid (position (units0 ! j)) (position (units ! i)) \<le> r
               \<and> unit_type (units ! j) = ty}
       \<and> i \<notin> set (query_radius st units i r) \<and> i \<notin> set (query_by_type st units i r ty)
       \<and> distinct (query_radius st units i r) \<and> distinct (query_by_type st units i r ty)"
proof -
  from assms have t: "tree st = map position units0"
    by (auto simp: SpatialTree_init_def cKDTree_def split: if_splits)
  have "set (query_radius st units i r) =
           {j. j < length units0 \<and> j \<noteq> i
               \<and> euclid (position (units0 ! j)) (position (units ! i)) \<le> r}"
    unfolding set_query_radius t by auto
  moreover have "set (query_by_type st units i r ty) =
           {j. j < length units0 \<and> j \<noteq> i
               \<and> euclid (position (units0 ! j)) (position (units ! i)) \<le> r
               \<and> unit_type (units ! j) = ty}"
    unfolding set_query_by_type t by auto
  moreover have "i \<notin> set (query_radius st units i r)" "i \<notin> set (query_by_type st units i r ty)"
    by (simp_all add: set_query_radius set_query_by_type)
  ultimately show ?thesis
    by (simp add: distinct_query_radius distinct_query_by_type)
qed

theorem query_radius_exact_witness:
  "SpatialTree_init [Unit_init 0 10 10, Unit_init 1 13 14] = Inr \<lparr>tree = [(10, 10), (13, 14)]\<rparr>
   \<and> set (query_radius \<lparr>tree = [(10, 10), (13, 14)]\<rparr> [Unit_init 0 10 10, Unit_init 1 13 14] 0 5)
       = {1}
   \<and> set (query_by_type \<lparr>tree = [(10, 10), (13, 14)]\<rparr> [Unit_init 0 10 10, Unit_init 1 13 14] 0 5 0)
       = {}"
proof -
  let ?us = "[Unit_init 0 10 10, Unit_init 1 13 14]"
  let ?st = "\<lparr>tree = [(10, 10), (13, 14)]\<rparr>"
  have b: "SpatialTree_init ?us = Inr ?st"
    by (simp add: SpatialTree_init_def cKDTree_def position_def Unit_init_def)
  have "{j. j < length ?us \<and> j \<noteq> 0 \<and> euclid (position (?us ! j)) (position (?us ! 0)) \<le> 5} = {1}"
    by (auto simp: less_Suc_eq position_def Unit_init_def euclid_le_iff)
  moreover have "{j. j < length ?us \<and> j \<noteq> 0 \<and> euclid (position (?us ! j)) (position (?us ! 0)) \<le> 5
      \<and> unit_type (?us ! j) = 0} = {}"
    by (auto simp: less_Suc_eq Unit_init_def)
  ultimately show ?thesis
    using query_radius_exact[OF b, of ?us 0 5 0] b by simp
qed

section \<open>C6: the velocities that alignment reads\<close>

text \<open>
  C6 as stated: alignment reads the neighbours' velocities of the previous tick, so that an
  agent's velocity does not depend on the order of the updates. It fails for two scissors
  50 apart, both at rest before the tick: on the velocities of the previous tick the second
  agent's velocity would be \<open>(-0.1, 0)\<close>, and so it is when the second agent is updated
  first; in the tick's own order the first agent has already stored its new velocity
  \<open>(0.1, 0)\<close>, alignment reads it, and the second agent's velocity is \<open>(-0.09, 0)\<close>.
\<close>

theorem alignment_reads_updated_velocity_counterexample:
  "unit_vx ([Unit_init 0 480 480, Unit_init 0 530 480] ! 0) = 0
   \<and> velocity \<lparr>tree = [(480, 480), (530, 480)]\<rparr>
        [Unit_init 0 480 480, Unit_init 0 530 480] 1 (1 / 2) (1 / 2) = (- 1 / 10, 0)
   \<and> unit_vx (fst (move_loop \<lparr>tree = [(480, 480), (530, 480)]\<rparr> [1, 0]
        [Unit_init 0 480 480, Unit_init 0 530 480] \<lparr>rng_seq = (\<lambda>n. 1 / 2), rng_pos = 0\<rparr>) ! 1)
       = - 1 / 10
   \<and> unit_vx (fst (update_positions \<lparr>tree = [(480, 480), (530, 480)]\<rparr>
        [Unit_init 0 480 480, Unit_init 0 530 480] \<lparr>rng_seq = (\<lambda>n. 1 / 2), rng_pos = 0\<rparr>) ! 1)
       = - 9 / 100
   \<and> alignment (fst (move_towards_target \<lparr>tree = [(480, 480), (530, 480)]\<rparr>
        [Unit_init 0 480 480, Unit_init 0 530 480] 0 \<lparr>rng_seq = (\<lambda>n. 1 / 2), rng_pos = 0\<rparr>)) [0]
       = (1 / 100, 0)"
proof -
  have a: "unit_vx ([Unit_init 0 480 480, Unit_init 0 530 480] ! 0) = 0"
    by (simp add: Unit_init_def)
  have d: "unit_vx (fst (update_positions \<lparr>tree = [(480, 480), (530, 480)]\<rparr>
        [Unit_init 0 480 480, Unit_init 0 530 480] \<lparr>rng_seq = (\<lambda>n. 1 / 2), rng_pos = 0\<rparr>) ! 1)
       = - 9 / 100"
    by (simp add: pair_positions)
  have b: "velocity \<lparr>tree = [(480, 480), (530, 480)]\<rparr>
        [Unit_init 0 480 480, Unit_init 0 530 480] 1 (1 / 2) (1 / 2) = (- 1 / 10, 0)"
    by (simp add: group_eval_defs)
  have c: "unit_vx (fst (move_loop \<lparr>tree = [(480, 480), (530, 480)]\<rparr> [1, 0]
        [Unit_init 0 480 480, Unit_init 0 530 480] \<lparr>rng_seq = (\<lambda>n. 1 / 2), rng_pos = 0\<rparr>) ! 1)
       = - 1 / 10"
  proof -
    let ?U = "[Unit_init 0 480 480,
       \<lparr>unit_type = 0, unit_x = 5299 / 10, unit_y = 480, unit_target = None,
         unit_vx = - 1 / 10, unit_vy = 0\<rparr>]"
    have "move_loop \<lparr>tree = [(480, 480), (530, 480)]\<rparr> [1, 0]
        [Unit_init 0 480 480, Unit_init 0 530 480] \<lparr>rng_seq = (\<lambda>n. 1 / 2), rng_pos = 0\<rparr>
      = move_towards_target \<lparr>tree = [(480, 480), (530, 480)]\<rparr> ?U 0
          \<lparr>rng_seq = (\<lambda>n. 1 / 2), rng_pos = 2\<rparr>"
      by (simp add: pair_second_first split: prod.splits)
    moreover have "fst (move_towards_target \<lparr>tree = [(480, 480), (530, 480)]\<rparr> ?U 0
          \<lparr>rng_seq = (\<lambda>n. 1 / 2), rng_pos = 2\<rparr>) ! 1 = ?U ! 1"
      by (simp add: move_towards_target_eq)
    ultimately show ?thesis by simp
  qed
  have e: "alignment (fst (move_towards_target \<lparr>tree = [(480, 480), (530, 480)]\<rparr>
        [Unit_init 0 480 480, Unit_init 0 530 480] 0 \<lparr>rng_seq = (\<lambda>n. 1 / 2), rng_pos = 0\<rparr>)) [0]
       = (1 / 100, 0)"
    by (simp add: pair_first_moved alignment_def GROUP_ALIGNMENT_def)
  from a b c d e show ?thesis by blast
qed

text \<open>
  C6 as amended: in the position pass every agent \<open>i\<close> is updated against the list \<open>U\<close>
  that holds, for the agents before \<open>i\<close> in the order of the list, the unit as this tick has
  already updated it, and for \<open>i\<close> and the agents after it, the unit as the previous tick
  left it. The alignment term of \<open>i\<close> is the mean of the velocities stored in \<open>U\<close> for its
  same-type neighbours (those within the flock radius under the positions of the tree),
  scaled by the alignment coefficient: this tick's velocity, after clamp and bounce, for a
  neighbour updated earlier, and the previous tick's velocity for a neighbour updated later.
  The result depends on the order of the updates.
\<close>

theorem alignment_reads_current_store:
  assumes "update_positions st units g = (units', g')" and "i < length units"
    and "length (tree st) = length units"
  shows "\<exists>U G. store_before st units g i = (U, G)
      \<and> length U = length units
      \<and> (\<forall>j<length units. U ! j = (if j < i then units' ! j else units ! j))
      \<and> units' ! i = moved st U i G
      \<and> set (find_same_type_neighbors st U i GROUP_RADIUS) =
          {j. j < length units \<and> j \<noteq> i
              \<and> euclid (tree st ! j) (position (units ! i)) \<le> GROUP_RADIUS
              \<and> unit_type (units ! j) = unit_type (units ! i)}
      \<and> (find_same_type_neighbors st U i GROUP_RADIUS \<noteq> [] \<longrightarrow>
           group_behavior st U i =
             vadd (vadd (separation_force U i (find_same_type_neighbors st U i GROUP_RADIUS))
                        (cohesion U i (find_same_type_neighbors st U i GROUP_RADIUS)))
                  (alignment U (find_same_type_neighbors st U i GROUP_RADIUS)))
      \<and> alignment U (find_same_type_neighbors st U i GROUP_RADIUS) =
          (sum_list (map (\<lambda>j. unit_vx (if j < i then units' ! j else units ! j))
                       (find_same_type_neighbors st U i GROUP_RADIUS))
             / real (length (find_same_type_neighbors st U i GROUP_RADIUS)) * GROUP_ALIGNMENT,
           sum_list (map (\<lambda>j. unit_vy (if j < i then units' ! j else units ! j))
                       (find_same_type_neighbors st U i GROUP_RADIUS))
             / real (length (find_same_type_neighbors st U i GROUP_RADIUS)) * GROUP_ALIGNMENT)"
proof -
  let ?n = "length units"
  obtain U G where ug: "store_before st units g i = (U, G)"
    by (cases "store_before st units g i")
  from move_loop_length[of st "[0..<i]" units g] ug have len: "length U = ?n"
    by (simp add: store_before_def)
  from assms(1) have full: "store_before st units g ?n = (units', g')"
    by (simp add: store_before_def update_positions_def)
  have final: "units' ! j = moved st (fst (store_before st units g j)) j (snd (store_before st units g j))"
    if "j < ?n" for j
    using store_before_nth[of ?n units j st g] that full by simp
  have store: "U ! j = (if j < i then units' ! j else units ! j)" if "j < ?n" for j
    using store_before_nth[of i units j st g] assms(2) that ug final[OF that] by simp
  from final[OF assms(2)] ug have mv: "units' ! i = moved st U i G" by simp
  let ?ns = "find_same_type_neighbors st U i GROUP_RADIUS"
  from store[OF assms(2)] have self: "U ! i = units ! i" by simp
  have types: "unit_type (U ! j) = unit_type (units ! j)" if "j < ?n" for j
  proof (cases "j < i")
    case True
    with store[OF that] final[OF that] have "U ! j = moved st (fst (store_before st units g j)) j
        (snd (store_before st units g j))" by simp
    moreover have "unit_type (fst (store_before st units g j) ! j) = unit_type (units ! j)"
      using move_loop_result[of st "[0..<j]" units g "fst (store_before st units g j)"
          "snd (store_before st units g j)"] that
      by (simp add: store_before_def)
    ultimately show ?thesis by simp
  next
    case False
    with store[OF that] show ?thesis by simp
  qed
  have ns: "set ?ns = {j. j < ?n \<and> j \<noteq> i
              \<and> euclid (tree st ! j) (position (units ! i)) \<le> GROUP_RADIUS
              \<and> unit_type (units ! j) = unit_type (units ! i)}"
    using types assms(2,3)
    by (auto simp: find_same_type_neighbors_def set_query_by_type self)
  then have sub: "\<forall>j \<in> set ?ns. j < ?n" by simp
  have gb: "?ns \<noteq> [] \<longrightarrow>
           group_behavior st U i =
             vadd (vadd (separation_force U i ?ns) (cohesion U i ?ns)) (alignment U ?ns)"
    by (simp add: group_behavior_def Let_def)
  have vx: "map (\<lambda>j. unit_vx (U ! j)) ?ns
      = map (\<lambda>j. unit_vx (if j < i then units' ! j else units ! j)) ?ns"
    by (rule map_cong) (use sub store in auto)
  have vy: "map (\<lambda>j. unit_vy (U ! j)) ?ns
      = map (\<lambda>j. unit_vy (if j < i then units' ! j else units ! j)) ?ns"
    by (rule map_cong) (use sub store in auto)
  have al: "alignment U ?ns =
          (sum_list (map (\<lambda>j. unit_vx (if j < i then units' ! j else units ! j)) ?ns)
             / real (length ?ns) * GROUP_ALIGNMENT,
           sum_list (map (\<lambda>j. unit_vy (if j < i then units' ! j else units ! j)) ?ns)
             / real (length ?ns) * GROUP_ALIGNMENT)"
    unfolding alignment_def Let_def vx vy ..
  from ug len store mv ns gb al show ?thesis by blast
qed

theorem alignment_reads_current_store_witness:
  "update_positions \<lparr>tree = [(480, 480), (530, 480)]\<rparr>
     [Unit_init 0 480 480, Unit_init 0 530 480] \<lparr>rng_seq = (\<lambda>n. 1 / 2), rng_pos = 0\<rparr>
   = ([\<lparr>unit_type = 0, unit_x = 4801 / 10, unit_y = 480, unit_target = None,
         unit_vx = 1 / 10, unit_vy = 0\<rparr>,
       \<lparr>unit_type = 0, unit_x = 52991 / 100, unit_y = 480, unit_target = None,
         unit_vx = - 9 / 100, unit_vy = 0\<rparr>],
      \<lparr>rng_seq = (\<lambda>n. 1 / 2), rng_pos = 4\<rparr>)
   \<and> (\<exists>U G. store_before \<lparr>tree = [(480, 480), (530, 480)]\<rparr>
          [Unit_init 0 480 480, Unit_init 0 530 480] \<lparr>rng_seq = (\<lambda>n. 1 / 2), rng_pos = 0\<rparr> 1 = (U, G)
        \<and> U ! 0 = \<lparr>unit_type = 0, unit_x = 4801 / 10, unit_y = 480, unit_target = None,
                     unit_vx = 1 / 10, unit_vy = 0\<rparr>
        \<and> U ! 1 = Unit_init 0 530 480)"
proof -
  let ?st = "\<lparr>tree = [(480, 480), (530, 480)]\<rparr>"
  let ?us = "[Unit_init 0 480 480, Unit_init 0 530 480]"
  let ?g = "\<lparr>rng_seq = (\<lambda>n. 1 / 2), rng_pos = 0\<rparr>"
  let ?us' = "[\<lparr>unit_type = 0, unit_x = 4801 / 10, unit_y = 480, unit_target = None,
         unit_vx = 1 / 10, unit_vy = 0\<rparr>,
       \<lparr>unit_type = 0, unit_x = 52991 / 100, unit_y = 480, unit_target = None,
         unit_vx = - 9 / 100, unit_vy = 0\<rparr>]"
  let ?g' = "\<lparr>rng_seq = (\<lambda>n. 1 / 2), rng_pos = 4\<rparr>"
  have p: "update_positions ?st ?us ?g = (?us', ?g')" by (rule pair_positions)
  have i: "1 < length ?us" by simp
  have l: "length (tree ?st) = length ?us" by simp
  from alignment_reads_current_store[OF p i l] obtain U G where
    u: "store_before ?st ?us ?g 1 = (U, G)"
    and s: "\<forall>j<length ?us. U ! j = (if j < 1 then ?us' ! j else ?us ! j)"
    by blast
  from s have "U ! 0 = ?us' ! 0" "U ! 1 = ?us ! 1" by simp_all
  then have "U ! 0 = \<lparr>unit_type = 0, unit_x = 4801 / 10, unit_y = 480, unit_target = None,
                     unit_vx = 1 / 10, unit_vy = 0\<rparr>" "U ! 1 = Unit_init 0 530 480"
    by simp_all
  with u p show ?thesis by blast
qed

section \<open>C7: choice of the target\<close>

text \<open>
  C7 as stated: whenever the candidate list is not empty, a draw in the upper 5 percent sends
  the agent to one of the remaining candidates. It fails when exactly one candidate is
  returned: the draw is \<open>0.99\<close>, and the agent still takes the nearest candidate, the only one.
\<close>

theorem find_target_single_candidate_counterexample:
  "map fst (potential_targets [Unit_init 1 100 100, Unit_init 0 103 104] 0) = [1]
   \<and> \<not> rng_seq \<lparr>rng_seq = (\<lambda>n. 99 / 100), rng_pos = 0\<rparr>
          (rng_pos \<lparr>rng_seq = (\<lambda>n. 99 / 100), rng_pos = 0\<rparr>) < 95 / 100
   \<and> find_target [Unit_init 1 100 100, Unit_init 0 103 104] 0
        \<lparr>rng_seq = (\<lambda>n. 99 / 100), rng_pos = 0\<rparr>
      = (Some 1, \<lparr>rng_seq = (\<lambda>n. 99 / 100), rng_pos = 1\<rparr>)"
  by (simp add: find_target_cases single_candidate_eval)

text \<open>
  C7 as amended: with \<open>potential_targets\<close> the at most three nearest agents of the prey type,
  nearest first: if it is empty the agent acquires no target (and no draw is made); if the
  first draw is below \<open>0.95\<close>, or there is exactly one candidate, the nearest candidate is
  chosen; otherwise (at least two candidates and a first draw of at least \<open>0.95\<close>) the target
  is the candidate of rank \<open>r + 1\<close> with \<open>1 \<le> r < n\<close>, where \<open>r\<close> is the one rank with
  \<open>r - 1 \<le> u * (n - 1) < r\<close> for the second draw \<open>u\<close>, so that each remaining rank takes an
  interval of \<open>u\<close> of the same length. The choice does not depend on the targets stored from
  the tick before.
\<close>

theorem find_target_choice:
  assumes "valid_rng g" and "i < length units"
  shows "(potential_targets units i = [] \<longrightarrow> find_target units i g = (None, g))
    \<and> (potential_targets units i \<noteq> []
         \<and> (rng_seq g (rng_pos g) < 95 / 100 \<or> length (potential_targets units i) = 1)
        \<longrightarrow> fst (find_target units i g) = Some (fst (potential_targets units i ! 0)))
    \<and> (2 \<le> length (potential_targets units i) \<and> \<not> rng_seq g (rng_pos g) < 95 / 100
        \<longrightarrow> (\<exists>r. 1 \<le> r \<and> r < length (potential_targets units i)
               \<and> fst (find_target units i g) = Some (fst (potential_targets units i ! r))
               \<and> real r - 1 \<le> rng_seq g (Suc (rng_pos g)) * (real (length (potential_targets units i)) - 1)
               \<and> rng_seq g (Suc (rng_pos g)) * (real (length (potential_targets units i)) - 1) < real r))
    \<and> length (potential_targets units i)
        = min 3 (length (type_units units i (prey_type (unit_type (units ! i)))))
    \<and> sorted (map snd (potential_targets units i))
    \<and> find_target (map (\<lambda>u. u\<lparr>unit_target := f u\<rparr>) units) i g = find_target units i g"
proof -
  let ?c = "potential_targets units i"
  let ?u = "rng_seq g (Suc (rng_pos g))"
  have a: "?c = [] \<longrightarrow> find_target units i g = (None, g)"
    by (simp add: find_target_cases)
  have b: "?c \<noteq> [] \<and> (rng_seq g (rng_pos g) < 95 / 100 \<or> length ?c = 1)
        \<longrightarrow> fst (find_target units i g) = Some (fst (?c ! 0))"
    by (simp add: find_target_cases)
  have c: "2 \<le> length ?c \<and> \<not> rng_seq g (rng_pos g) < 95 / 100
        \<longrightarrow> (\<exists>r. 1 \<le> r \<and> r < length ?c
               \<and> fst (find_target units i g) = Some (fst (?c ! r))
               \<and> real r - 1 \<le> ?u * (real (length ?c) - 1)
               \<and> ?u * (real (length ?c) - 1) < real r)"
  proof
    assume h: "2 \<le> length ?c \<and> \<not> rng_seq g (rng_pos g) < 95 / 100"
    define x where "x = ?u * of_int (int (length ?c) - 1)"
    define r where "r = nat (1 + \<lfloor>x\<rfloor>)"
    from h have ne: "?c \<noteq> []" "length ?c \<noteq> 1" by auto
    from rank_range[OF assms(1), of "length ?c" "Suc (rng_pos g)"] h
    have r: "1 \<le> r" "r < length ?c" by (simp_all add: r_def x_def)
    from h ne have ft: "fst (find_target units i g) = Some (fst (?c ! r))"
      by (simp add: find_target_cases r_def x_def)
    from r have "int r = 1 + \<lfloor>x\<rfloor>" unfolding r_def by linarith
    then have "real_of_int (int r) = real_of_int (1 + \<lfloor>x\<rfloor>)" by (rule arg_cong)
    then have rr: "real r = 1 + real_of_int \<lfloor>x\<rfloor>" by simp
    have "real_of_int \<lfloor>x\<rfloor> \<le> x" "x < real_of_int \<lfloor>x\<rfloor> + 1" by linarith+
    with rr have "real r - 1 \<le> x" "x < real r" by linarith+
    moreover from h have "x = ?u * (real (length ?c) - 1)" by (simp add: x_def)
    ultimately have "real r - 1 \<le> ?u * (real (length ?c) - 1)"
      "?u * (real (length ?c) - 1) < real r" by simp_all
    with r ft show "\<exists>r. 1 \<le> r \<and> r < length ?c
               \<and> fst (find_target units i g) = Some (fst (?c ! r))
               \<and> real r - 1 \<le> ?u * (real (length ?c) - 1)
               \<and> ?u * (real (length ?c) - 1) < real r"
      by blast
  qed
  have d: "length ?c = min 3 (length (type_units units i (prey_type (unit_type (units ! i)))))"
    by (simp add: potential_targets_def length_find_nearest_of_type)
  have e: "sorted (map snd ?c)"
    by (simp add: potential_targets_def sorted_find_nearest_of_type)
  have f: "find_target (map (\<lambda>u. u\<lparr>unit_target := f u\<rparr>) units) i g = find_target units i g"
    by (simp add: find_target_cases potential_targets_targets[OF assms(2)])
  from a b c d e f show ?thesis by blast
qed

theorem find_target_choice_witness:
  "valid_rng \<lparr>rng_seq = (\<lambda>n. if n = 0 then 99 / 100 else 1 / 2), rng_pos = 0\<rparr>
   \<and> map fst (potential_targets [Unit_init 1 100 100, Unit_init 0 100 110, Unit_init 0 103 104] 0)
       = [2, 1]
   \<and> fst (find_target [Unit_init 1 100 100, Unit_init 0 100 110, Unit_init 0 103 104] 0
        \<lparr>rng_seq = (\<lambda>n. if n = 0 then 99 / 100 else 1 / 2), rng_pos = 0\<rparr>) = Some 1"
proof -
  let ?us = "[Unit_init 1 100 100, Unit_init 0 100 110, Unit_init 0 103 104]"
  let ?g = "\<lparr>rng_seq = (\<lambda>n. if n = 0 then 99 / 100 else 1 / 2), rng_pos = 0\<rparr>"
  have v: "valid_rng ?g" by (simp add: valid_rng_def)
  have i: "0 < length ?us" by simp
  have h: "2 \<le> length (potential_targets ?us 0) \<and> \<not> rng_seq ?g (rng_pos ?g) < 95 / 100"
    by (simp add: two_candidates_eval)
  from find_target_choice[OF v i] h
  obtain r where "1 \<le> r" "r < length (potential_targets ?us 0)"
    "fst (find_target ?us 0 ?g) = Some (fst (potential_targets ?us 0 ! r))"
    by blast
  moreover from this have "r = 1" by (simp add: two_candidates_eval)
  ultimately have "fst (find_target ?us 0 ?g) = Some 1" by (simp add: two_candidates_eval)
  with v show ?thesis by (simp add: two_candidates_eval)
qed

section \<open>C8: populations of one type, and of no agent\<close>

text \<open>
  C8. The part on populations of one type holds (\<open>single_type_run\<close>): the first tick ends
  the run with \<open>Game_Over (Some t)\<close> and all agents counted for \<open>t\<close>. The part on the empty
  population does not: \<open>check_end_condition\<close> is true of the empty list and \<open>main_tick\<close> has
  the branch \<open>Game_Over None\<close> for it, but the run never gets there, since building the tree
  from no positions raises \<^verbatim>\<open>ValueError\<close> in the first tick.
\<close>

theorem zero_agents_run_fails:
  "initialize_units m 0 0 0 draws = Inr []
   \<and> check_end_condition []
   \<and> main_tick \<lparr>sim_units = [], time_steps = 0, status_message = Running, running = True,
                 random_state = g\<rparr> = Inl ValueError
   \<and> main m 0 0 0 draws g = Inl ValueError"
proof -
  have i: "initialize_units m 0 0 0 draws = Inr []"
    by (simp add: initialize_units_def np_random_uniform_def)
  have t: "main_tick \<lparr>sim_units = [], time_steps = 0, status_message = Running, running = True,
                 random_state = g\<rparr> = Inl ValueError"
    by (simp add: main_tick_def SpatialTree_init_def cKDTree_def)
  have "main m 0 0 0 draws g = Inl ValueError"
    using main_loop_error[OF _ t] by (simp add: main_def main_init_def i)
  with i t show ?thesis by (simp add: check_end_condition_def)
qed

section \<open>C9: failures of initialisation\<close>




section \<open>C10: the two filters of the collision check\<close>

text \<open>
  C10. In every tick, the type of an agent \<open>a\<close> changes only if some agent \<open>p\<close> of the
  predator type passes both filters: \<open>p\<close>'s position when the tick's tree was built (its
  position before the tick) is within \<open>2 * MIN_DISTANCE\<close> of \<open>a\<close>'s position after the
  position pass, and the positions of \<open>a\<close> and \<open>p\<close> after the position pass are strictly
  less than \<open>MIN_DISTANCE\<close> apart; the new type is then the predator type. If every
  predator that ends the tick within \<open>MIN_DISTANCE\<close> of \<open>a\<close> was outside
  \<open>2 * MIN_DISTANCE\<close> under the positions of the tree, the type of \<open>a\<close> does not change.
\<close>

theorem conversion_needs_both_filters:
  assumes "main_tick s = Inr s'" and "i < length (sim_units s)"
  shows "(unit_type (sim_units s' ! i) \<noteq> unit_type (sim_units s ! i) \<longrightarrow>
            (\<exists>p<length (sim_units s). p \<noteq> i
               \<and> unit_type (sim_units s ! p) = predator_type (unit_type (sim_units s ! i))
               \<and> unit_type (sim_units s' ! i) = predator_type (unit_type (sim_units s ! i))
               \<and> euclid (position (sim_units s ! p)) (position (sim_units s' ! i)) \<le> MIN_DISTANCE * 2
               \<and> euclid (position (sim_units s' ! i)) (position (sim_units s' ! p)) < MIN_DISTANCE))
       \<and> ((\<forall>p<length (sim_units s).
              p \<noteq> i \<and> unit_type (sim_units s ! p) = predator_type (unit_type (sim_units s ! i))
              \<and> euclid (position (sim_units s' ! i)) (position (sim_units s' ! p)) < MIN_DISTANCE
              \<longrightarrow> MIN_DISTANCE * 2 < euclid (position (sim_units s ! p)) (position (sim_units s' ! i)))
           \<longrightarrow> unit_type (sim_units s' ! i) = unit_type (sim_units s ! i))"
proof -
  let ?n = "length (sim_units s)"
  let ?pt = "predator_type (unit_type (sim_units s ! i))"
  from main_tick_snapshot[OF assms(1)] obtain st units2 g2 where
    c: "convert_units st units2 g2 = (sim_units s', random_state s')"
    and l: "length units2 = ?n"
    and ty: "\<forall>j<?n. unit_type (units2 ! j) = unit_type (sim_units s ! j)"
    and ps: "\<forall>j<?n. position (sim_units s' ! j) = position (units2 ! j)"
    and tr: "tree st = map position (sim_units s)"
    by blast
  from assms(2) l have i: "i < length units2" by simp
  have main: "\<exists>p<?n. p \<noteq> i
               \<and> unit_type (sim_units s ! p) = ?pt
               \<and> unit_type (sim_units s' ! i) = ?pt
               \<and> euclid (position (sim_units s ! p)) (position (sim_units s' ! i)) \<le> MIN_DISTANCE * 2
               \<and> euclid (position (sim_units s' ! i)) (position (sim_units s' ! p)) < MIN_DISTANCE"
    if ch: "unit_type (sim_units s' ! i) \<noteq> unit_type (sim_units s ! i)"
  proof -
    obtain r g' where cc: "check_collision st units2 i (collision_rng st units2 g2 i) = (r, g')"
      by (cases "check_collision st units2 i (collision_rng st units2 g2 i)")
    with convert_units_nth[OF c i]
    have nth: "sim_units s' ! i = (case r of None \<Rightarrow> units2 ! i | Some t \<Rightarrow> (units2 ! i)\<lparr>unit_type := t\<rparr>)"
      by (simp add: collision_outcome_def)
    with ch ty assms(2) obtain t where r: "r = Some t" by (cases r) auto
    from check_collision_some[OF cc[unfolded r]] ty assms(2)
    have t: "t = ?pt" and q: "qualifying_predators st units2 i \<noteq> []" by simp_all
    from q obtain p where "p \<in> set (qualifying_predators st units2 i)"
      by (cases "qualifying_predators st units2 i") auto
    then have p: "p < length (tree st)" "p \<noteq> i"
      "euclid (tree st ! p) (position (units2 ! i)) \<le> MIN_DISTANCE * 2"
      "unit_type (units2 ! p) = predator_type (unit_type (units2 ! i))"
      "euclid (position (units2 ! i)) (position (units2 ! p)) < MIN_DISTANCE"
      by (auto simp: qualifying_predators_def set_query_by_type)
    from p(1) tr have pn: "p < ?n" by simp
    from nth r t have "unit_type (sim_units s' ! i) = ?pt" by simp
    moreover from p(4) ty pn assms(2) have "unit_type (sim_units s ! p) = ?pt" by simp
    moreover from p(3) tr pn ps assms(2)
    have "euclid (position (sim_units s ! p)) (position (sim_units s' ! i)) \<le> MIN_DISTANCE * 2"
      by simp
    moreover from p(5) ps pn assms(2)
    have "euclid (position (sim_units s' ! i)) (position (sim_units s' ! p)) < MIN_DISTANCE"
      by simp
    ultimately show ?thesis using pn p(2) by blast
  qed
  have a: "unit_type (sim_units s' ! i) \<noteq> unit_type (sim_units s ! i) \<longrightarrow>
            (\<exists>p<?n. p \<noteq> i
               \<and> unit_type (sim_units s ! p) = ?pt
               \<and> unit_type (sim_units s' ! i) = ?pt
               \<and> euclid (position (sim_units s ! p)) (position (sim_units s' ! i)) \<le> MIN_DISTANCE * 2
               \<and> euclid (position (sim_units s' ! i)) (position (sim_units s' ! p)) < MIN_DISTANCE)"
    using main by blast
  have b: "(\<forall>p<?n.
              p \<noteq> i \<and> unit_type (sim_units s ! p) = ?pt
              \<and> euclid (position (sim_units s' ! i)) (position (sim_units s' ! p)) < MIN_DISTANCE
              \<longrightarrow> MIN_DISTANCE * 2 < euclid (position (sim_units s ! p)) (position (sim_units s' ! i)))
           \<longrightarrow> unit_type (sim_units s' ! i) = unit_type (sim_units s ! i)"
  proof (intro impI, rule ccontr)
    assume h: "\<forall>p<?n.
              p \<noteq> i \<and> unit_type (sim_units s ! p) = ?pt
              \<and> euclid (position (sim_units s' ! i)) (position (sim_units s' ! p)) < MIN_DISTANCE
              \<longrightarrow> MIN_DISTANCE * 2 < euclid (position (sim_units s ! p)) (position (sim_units s' ! i))"
    assume "unit_type (sim_units s' ! i) \<noteq> unit_type (sim_units s ! i)"
    from main[OF this] obtain p where "p < ?n" "p \<noteq> i" "unit_type (sim_units s ! p) = ?pt"
      "euclid (position (sim_units s ! p)) (position (sim_units s' ! i)) \<le> MIN_DISTANCE * 2"
      "euclid (position (sim_units s' ! i)) (position (sim_units s' ! p)) < MIN_DISTANCE"
      by blast
    with h show False by fastforce
  qed
  from a b show ?thesis ..
qed

theorem conversion_needs_both_filters_witness:
  "main_tick \<lparr>sim_units = [Unit_init 0 480 480, Unit_init 1 480 480], time_steps = 0,
       status_message = Running, running = True,
       random_state = \<lparr>rng_seq = (\<lambda>n. if n = 5 then 1 / 10 else 1 / 2), rng_pos = 0\<rparr>\<rparr>
   = Inr \<lparr>sim_units = [Unit_init 1 480 480, (Unit_init 1 480 480)\<lparr>unit_target := Some 0\<rparr>],
       time_steps = 1, status_message = Game_Over (Some 1), running = False,
       random_state = \<lparr>rng_seq = (\<lambda>n. if n = 5 then 1 / 10 else 1 / 2), rng_pos = 6\<rparr>\<rparr>
   \<and> unit_type (Unit_init 1 480 480) \<noteq> unit_type (Unit_init 0 480 480)
   \<and> unit_type (Unit_init 1 480 480) = predator_type (unit_type (Unit_init 0 480 480))
   \<and> euclid (position (Unit_init 1 480 480)) (position (Unit_init 1 480 480)) \<le> MIN_DISTANCE * 2
   \<and> euclid (position (Unit_init 1 480 480))
        (position ((Unit_init 1 480 480)\<lparr>unit_target := Some 0\<rparr>)) < MIN_DISTANCE"
proof -
  let ?gen = "\<lparr>rng_seq = (\<lambda>n. if n = 5 then 1 / 10 else 1 / 2), rng_pos = 0\<rparr>"
  let ?a = "\<lparr>sim_units = [Unit_init 0 480 480, Unit_init 1 480 480], time_steps = 0,
       status_message = Running, running = True, random_state = ?gen\<rparr>"
  let ?b = "\<lparr>sim_units = [Unit_init 1 480 480, (Unit_init 1 480 480)\<lparr>unit_target := Some 0\<rparr>],
       time_steps = 1, status_message = Game_Over (Some 1), running = False,
       random_state = \<lparr>rng_seq = (\<lambda>n. if n = 5 then 1 / 10 else 1 / 2), rng_pos = 6\<rparr>\<rparr>"
  have t: "main_tick ?a = Inr ?b" by (rule same_point_tick)
  have i: "0 < length (sim_units ?a)" by simp
  have ch: "unit_type (sim_units ?b ! 0) \<noteq> unit_type (sim_units ?a ! 0)"
    by (simp add: Unit_init_def)
  from conversion_needs_both_filters[OF t i] ch obtain p where
    p: "p < length (sim_units ?a)" "p \<noteq> 0"
    "unit_type (sim_units ?b ! 0) = predator_type (unit_type (sim_units ?a ! 0))"
    "euclid (position (sim_units ?a ! p)) (position (sim_units ?b ! 0)) \<le> MIN_DISTANCE * 2"
    "euclid (position (sim_units ?b ! 0)) (position (sim_units ?b ! p)) < MIN_DISTANCE"
    by blast
  from p(1,2) have "p = 1" by simp
  with p(3,4,5) ch t show ?thesis by simp
qed

end
